theory Spec2Isabelle
  imports Main
begin


section \<open>Python values\<close>

text \<open>
  The acts handed to \<open>save_conversations\<close>, the records written to the conversation
  file and the metadata record are Python values that \<open>json.dumps\<close> accepts. They are
  modelled by the datatype \<open>json\<close>: \<open>None\<close>, booleans, unbounded integers, strings,
  lists, and dictionaries with string keys. A dictionary is an association list with
  distinct keys, in insertion order (the order \<open>json.dumps\<close> writes). Floats are left
  out.
\<close>

datatype json =
    JNull
  | JBool bool
  | JInt int
  | JStr string
  | JList "json list"
  | JObj "(string \<times> json) list"

type_synonym dict = "(string \<times> json) list"

text \<open>\<open>d.get(k, dflt)\<close>.\<close>

definition dict_get :: "dict \<Rightarrow> string \<Rightarrow> json \<Rightarrow> json" where
  "dict_get d k dflt = (case map_of d k of None \<Rightarrow> dflt | Some v \<Rightarrow> v)"

text \<open>\<open>d[k] = v\<close>: an existing key keeps its position, a new key goes last.\<close>

fun dict_set :: "dict \<Rightarrow> string \<Rightarrow> json \<Rightarrow> dict" where
  "dict_set [] k v = [(k, v)]"
| "dict_set ((k', v') # d) k v =
     (if k' = k then (k, v) # d else (k', v') # dict_set d k v)"

text \<open>
  Python's \<open>==\<close> on these values: \<open>True == 1\<close> and \<open>False == 0\<close> hold, lists compare
  elementwise, dictionaries compare as mappings (the order of the keys does not matter).
\<close>

fun py_eq :: "json \<Rightarrow> json \<Rightarrow> bool"
  and py_eq_list :: "json list \<Rightarrow> json list \<Rightarrow> bool"
  and py_eq_items :: "dict \<Rightarrow> dict \<Rightarrow> bool"
where
  "py_eq JNull JNull = True"
| "py_eq (JBool a) (JBool b) = (a = b)"
| "py_eq (JBool a) (JInt i) = (i = (if a then 1 else 0))"
| "py_eq (JInt i) (JBool a) = (i = (if a then 1 else 0))"
| "py_eq (JInt i) (JInt j) = (i = j)"
| "py_eq (JStr s) (JStr t) = (s = t)"
| "py_eq (JList xs) (JList ys) = py_eq_list xs ys"
| "py_eq (JObj xs) (JObj ys) = (length xs = length ys \<and> py_eq_items xs ys)"
| "py_eq _ _ = False"
| "py_eq_list [] [] = True"
| "py_eq_list (x # xs) (y # ys) = (py_eq x y \<and> py_eq_list xs ys)"
| "py_eq_list _ _ = False"
| "py_eq_items [] ys = True"
| "py_eq_items ((k, v) # xs) ys =
     ((case map_of ys k of None \<Rightarrow> False | Some v' \<Rightarrow> py_eq v v') \<and> py_eq_items xs ys)"

text \<open>
  \<open>x in xs\<close> for a list \<open>xs\<close>: some element \<open>e\<close> of the list has \<open>e is x or x == e\<close>.
  An object that is identical to \<open>x\<close> has the same value.
\<close>

definition py_same :: "json \<Rightarrow> json \<Rightarrow> bool" where
  "py_same e x = (e = x \<or> py_eq x e)"

definition py_in :: "json \<Rightarrow> json list \<Rightarrow> bool" where
  "py_in x xs = list_ex (\<lambda>e. py_same e x) xs"

text \<open>\<open>xs[i]\<close> for a list and an integer index: a negative index counts from the end.\<close>

datatype py_error =
    RuntimeError string
  | KeyError string
  | TypeError string
  | IndexError string
  | JSONDecodeError string string nat

definition py_index :: "'a list \<Rightarrow> int \<Rightarrow> py_error + 'a" where
  "py_index xs i =
     (let n = int (length xs) in
      if i < - n \<or> n \<le> i then Inl (IndexError ''list index out of range'')
      else Inr (xs ! nat (if i < 0 then i + n else i)))"

text \<open>\<open>v[k]\<close> for a string key \<open>k\<close>: only a dictionary can be subscripted by a string.\<close>

fun py_subscript :: "json \<Rightarrow> string \<Rightarrow> py_error + json" where
  "py_subscript (JObj d) k =
     (case map_of d k of None \<Rightarrow> Inl (KeyError k) | Some v \<Rightarrow> Inr v)"
| "py_subscript (JList xs) k = Inl (TypeError ''list indices must be integers or slices, not str'')"
| "py_subscript (JStr s) k = Inl (TypeError ''string indices must be integers, not 'str' '')"
| "py_subscript v k = Inl (TypeError ''object is not subscriptable'')"

section \<open>Strings and paths\<close>

text \<open>\<open>s.split(c)\<close> with an explicit separator: never empty, empty pieces are kept.\<close>

fun split_on :: "char \<Rightarrow> string \<Rightarrow> string list" where
  "split_on c [] = [[]]"
| "split_on c (x # xs) =
     (if x = c then [] # split_on c xs
      else (case split_on c xs of [] \<Rightarrow> [[x]] | w # ws \<Rightarrow> (x # w) # ws))"

text \<open>
  \<open>s.splitlines()\<close>: a line ends at \<open>\n\<close>, \<open>\r\<close>, \<open>\r\n\<close>, \<open>\v\<close>, \<open>\f\<close>, \<open>\x1c\<close>,
  \<open>\x1d\<close>, \<open>\x1e\<close> or \<open>\x85\<close>; the line ends are dropped, and no empty line follows the
  last line end. (A file read in text mode has \<open>\r\n\<close> and \<open>\r\<close> turned into \<open>\n\<close> first,
  which gives the same lines.)
\<close>

definition linebreak :: "char \<Rightarrow> bool" where
  "linebreak c = (c \<in> set [CHR 0x0A, CHR 0x0D, CHR 0x0B, CHR 0x0C, CHR 0x1C, CHR 0x1D, CHR 0x1E, CHR 0x85])"

fun splitlines_from :: "string \<Rightarrow> string \<Rightarrow> string list" where
  "splitlines_from cur [] = (if cur = [] then [] else [cur])"
| "splitlines_from cur (c # cs) =
     (if c = CHR 0x0D then
        (case cs of
           [] \<Rightarrow> [cur]
         | d # ds \<Rightarrow> if d = CHR 0x0A then cur # splitlines_from [] ds
                    else cur # splitlines_from [] cs)
      else if linebreak c then cur # splitlines_from [] cs
      else splitlines_from (cur @ [c]) cs)"

definition splitlines :: "string \<Rightarrow> string list" where
  "splitlines s = splitlines_from [] s"

text \<open>\<open>s.rfind(c)\<close>: the last index of \<open>c\<close>, or \<open>-1\<close>.\<close>

definition rfind :: "char \<Rightarrow> string \<Rightarrow> int" where
  "rfind c s =
     (if c \<in> set s then int (length s) - 1 - int (length (takeWhile (\<lambda>x. x \<noteq> c) (rev s)))
      else - 1)"

text \<open>
  \<open>os.path.splitext\<close> (POSIX): the extension starts at the last dot of the last path
  component, unless that component has only dots before it.
\<close>

definition splitext :: "string \<Rightarrow> string \<times> string" where
  "splitext p =
     (let sepIndex = rfind CHR ''/'' p; dotIndex = rfind CHR ''.'' p in
      if dotIndex > sepIndex \<and>
         list_ex (\<lambda>c. c \<noteq> CHR ''.'') (drop (nat (sepIndex + 1)) (take (nat dotIndex) p))
      then (take (nat dotIndex) p, drop (nat dotIndex) p)
      else (p, []))"

section \<open>Files and the console\<close>

text \<open>
  The effects of the module are reads and writes of whole files and lines printed to
  standard output. A world holds the regular files by path and the printed lines.
\<close>

record world =
  files :: "string \<Rightarrow> string option"
  console :: "string list"

definition isfile :: "world \<Rightarrow> string \<Rightarrow> bool" where
  "isfile w p = (files w p \<noteq> None)"

definition read_file :: "world \<Rightarrow> string \<Rightarrow> string" where
  "read_file w p = (case files w p of None \<Rightarrow> [] | Some s \<Rightarrow> s)"

text \<open>\<open>open(p, 'w')\<close>, the writes, and the close: the file holds what was written.\<close>

definition write_file :: "string \<Rightarrow> string \<Rightarrow> world \<Rightarrow> world" where
  "write_file p s w = w\<lparr>files := (files w)(p \<mapsto> s)\<rparr>"

definition print :: "string \<Rightarrow> world \<Rightarrow> world" where
  "print s w = w\<lparr>console := console w @ [s]\<rparr>"

text \<open>
  \<open>json.dumps\<close> and \<open>json.loads\<close> belong to the standard library. The model takes them
  as parameters: \<open>dumps\<close> maps a value to its text, \<open>decode\<close> maps a text to a value or
  to the message and position of a \<open>JSONDecodeError\<close>, whose document is the decoded text.
\<close>

type_synonym encoder = "json \<Rightarrow> string"
type_synonym decoder = "string \<Rightarrow> (string \<times> nat) + json"

definition json_loads :: "decoder \<Rightarrow> string \<Rightarrow> py_error + json" where
  "json_loads decode s =
     (case decode s of Inl (msg, pos) \<Rightarrow> Inl (JSONDecodeError msg s pos) | Inr v \<Rightarrow> Inr v)"

definition bind :: "'e + 'a \<Rightarrow> ('a \<Rightarrow> 'e + 'b) \<Rightarrow> 'e + 'b" where
  "bind m f = (case m of Inl e \<Rightarrow> Inl e | Inr x \<Rightarrow> f x)"

section \<open>Metadata\<close>

text \<open>The fields that \<open>Metadata._load\<close> sets on the object.\<close>

record metadata =
  metadata_path :: string
  datetime :: json
  opt :: json
  self_chat :: json
  speakers :: json
  version_num :: json
  extra_data :: dict

text \<open>\<open>Metadata._get_path\<close>.\<close>

definition Metadata_get_path :: "string \<Rightarrow> string" where
  "Metadata_get_path datapath = fst (splitext datapath) @ ''.metadata''"

text \<open>\<open>Metadata.version\<close>.\<close>

definition version :: string where
  "version = ''0.1''"

text \<open>
  \<open>Metadata._load\<close> (called by the constructor): a missing file raises \<open>RuntimeError\<close>,
  a file that is not JSON raises the decoder's error, a record without one of the five
  keys raises \<open>KeyError\<close> for the first one missing.
\<close>

definition Metadata_load :: "decoder \<Rightarrow> string \<Rightarrow> world \<Rightarrow> py_error + metadata" where
  "Metadata_load decode datapath w =
     (let path = Metadata_get_path datapath in
      if \<not> isfile w path then
        Inl (RuntimeError (''Metadata at path '' @ path @ '' not found. Double check your path.''))
      else
        bind (json_loads decode (read_file w path)) (\<lambda>md.
        bind (py_subscript md ''date'') (\<lambda>v_date.
        bind (py_subscript md ''opt'') (\<lambda>v_opt.
        bind (py_subscript md ''self_chat'') (\<lambda>v_self_chat.
        bind (py_subscript md ''speakers'') (\<lambda>v_speakers.
        bind (py_subscript md ''version'') (\<lambda>v_version.
          Inr \<lparr>metadata_path = path, datetime = v_date, opt = v_opt,
               self_chat = v_self_chat, speakers = v_speakers, version_num = v_version,
               extra_data =
                 (case md of
                    JObj items \<Rightarrow>
                      filter (\<lambda>(k, v). k \<notin> set [''date'', ''opt'', ''speakers'', ''self_chat'', ''version''])
                        items
                  | _ \<Rightarrow> [])\<rparr>)))))))"

text \<open>
  \<open>Metadata.save_metadata\<close>. \<open>now\<close> is \<open>str(datetime.datetime.now())\<close> as read by this
  call, \<open>kwargs\<close> the extra keyword arguments in the order given.
\<close>

definition metadata_record :: "string \<Rightarrow> json \<Rightarrow> json \<Rightarrow> json \<Rightarrow> dict \<Rightarrow> dict" where
  "metadata_record now v_opt v_self_chat v_speakers kwargs =
     foldl (\<lambda>md (k, v). dict_set md k v)
       (dict_set (dict_set (dict_set (dict_set (dict_set [] ''date'' (JStr now))
          ''opt'' v_opt) ''self_chat'' v_self_chat) ''speakers'' v_speakers)
          ''version'' (JStr version))
       kwargs"

definition save_metadata ::
  "encoder \<Rightarrow> string \<Rightarrow> json \<Rightarrow> json \<Rightarrow> json \<Rightarrow> dict \<Rightarrow> string \<Rightarrow> world \<Rightarrow> world" where
  "save_metadata dumps datapath v_opt v_self_chat v_speakers kwargs now w =
     (let md = metadata_record now v_opt v_self_chat v_speakers kwargs;
          path = Metadata_get_path datapath;
          w1 = print (''[ Writing metadata to file '' @ path @ '' ]'') w
      in write_file path (dumps (JObj md)) w1)"

section \<open>Conversations\<close>

record conversations =
  conversations :: "json list"
  metadata :: "metadata option"
  iterator_idx :: int

definition num_conversations :: "conversations \<Rightarrow> int" where
  "num_conversations c = int (length (conversations c))"

text \<open>\<open>Conversations._load_conversations\<close>: the loop parses the lines in order and stops
  at the first error.\<close>

fun parse_lines :: "decoder \<Rightarrow> string list \<Rightarrow> json list \<Rightarrow> py_error + json list" where
  "parse_lines decode [] acc = Inr acc"
| "parse_lines decode (line # rest) acc =
     (case json_loads decode line of
        Inl e \<Rightarrow> Inl e
      | Inr c \<Rightarrow> parse_lines decode rest (acc @ [c]))"

definition load_conversations :: "decoder \<Rightarrow> string \<Rightarrow> world \<Rightarrow> py_error + json list" where
  "load_conversations decode datapath w =
     (if \<not> isfile w datapath then
        Inl (RuntimeError (''Conversations at path '' @ datapath @ '' not found. Double check your path.''))
      else parse_lines decode (splitlines (read_file w datapath)) [])"

text \<open>\<open>Conversations._load_metadata\<close>: only a \<open>RuntimeError\<close> is caught.\<close>

definition load_metadata ::
  "decoder \<Rightarrow> string \<Rightarrow> world \<Rightarrow> py_error + (metadata option \<times> world)" where
  "load_metadata decode datapath w =
     (case Metadata_load decode datapath w of
        Inr m \<Rightarrow> Inr (Some m, w)
      | Inl (RuntimeError msg) \<Rightarrow>
          Inr (None, print ''Metadata does not exist. Please double check your datapath.'' w)
      | Inl e \<Rightarrow> Inl e)"

text \<open>The constructor \<open>Conversations(datapath)\<close>.\<close>

definition Conversations_init ::
  "decoder \<Rightarrow> string \<Rightarrow> world \<Rightarrow> py_error + (conversations \<times> world)" where
  "Conversations_init decode datapath w =
     bind (load_conversations decode datapath w) (\<lambda>cs.
     bind (load_metadata decode datapath w) (\<lambda>(m, w').
       Inr (\<lparr>conversations = cs, metadata = m, iterator_idx = 0\<rparr>, w')))"

text \<open>\<open>Conversations.__getitem__\<close> at an integer index.\<close>

definition getitem :: "conversations \<Rightarrow> int \<Rightarrow> py_error + json" where
  "getitem c index = py_index (conversations c) index"

text \<open>\<open>Conversations.reset\<close> and \<open>Conversations.__next__\<close>. The value returned at the end
  is Python's \<open>None\<close>.\<close>

definition reset :: "conversations \<Rightarrow> conversations" where
  "reset c = c\<lparr>iterator_idx := 0\<rparr>"

definition next_conv ::
  "conversations \<Rightarrow> world \<Rightarrow> py_error + (json \<times> conversations \<times> world)" where
  "next_conv c w =
     (if iterator_idx c \<ge> num_conversations c then
        Inr (JNull, reset c, print ''You reached the end of the conversations.'' w)
      else
        bind (py_index (conversations c) (iterator_idx c)) (\<lambda>conv.
          Inr (conv, c\<lparr>iterator_idx := iterator_idx c + 1\<rparr>, w)))"

text \<open>\<open>Conversations._get_path\<close>.\<close>

definition Conversations_get_path :: "string \<Rightarrow> string" where
  "Conversations_get_path datapath = fst (splitext datapath) @ ''.jsonl''"

subsection \<open>Saving\<close>

text \<open>The turn built for one act: the keys of \<open>save_keys\<close> in order, then \<open>id\<close>.\<close>

definition make_turn :: "string \<Rightarrow> dict \<Rightarrow> dict" where
  "make_turn save_keys ex =
     dict_set
       (foldl (\<lambda>turn key. dict_set turn key (dict_get ex key (JStr [])))
          [] (split_on CHR '','' save_keys))
       ''id'' (dict_get ex ''id'' JNull)"

text \<open>The conversation under construction for one episode.\<close>

record convo =
  convo_dialog :: "dict list list"
  convo_context :: "dict list"
  convo_metadata_path :: string

definition convo_json :: "convo \<Rightarrow> json" where
  "convo_json cv =
     JObj [(''dialog'', JList (map (\<lambda>pair. JList (map JObj pair)) (convo_dialog cv))),
           (''context'', JList (map JObj (convo_context cv))),
           (''metadata_path'', JStr (convo_metadata_path cv))]"

text \<open>The loop over the acts of one pair; its state is \<open>new_pair\<close>, \<open>convo\<close> and
  \<open>speakers\<close>.\<close>

fun act_pair_loop ::
  "json list \<Rightarrow> string \<Rightarrow> dict list \<Rightarrow> dict list \<times> convo \<times> json list
     \<Rightarrow> dict list \<times> convo \<times> json list" where
  "act_pair_loop context_ids save_keys [] st = st"
| "act_pair_loop context_ids save_keys (ex # exs) (new_pair, cv, spk) =
     (let ex_id = dict_get ex ''id'' JNull;
          is_context = py_in ex_id context_ids;
          spk' = (if \<not> is_context \<and> \<not> py_in ex_id spk then spk @ [ex_id] else spk);
          turn = make_turn save_keys ex
      in if \<not> is_context
         then act_pair_loop context_ids save_keys exs (new_pair @ [turn], cv, spk')
         else act_pair_loop context_ids save_keys exs
                (new_pair, cv\<lparr>convo_context := convo_context cv @ [turn]\<rparr>, spk'))"

text \<open>The loop over the pairs of one episode.\<close>

fun episode_loop ::
  "json list \<Rightarrow> string \<Rightarrow> dict list list \<Rightarrow> convo \<times> json list \<Rightarrow> convo \<times> json list" where
  "episode_loop context_ids save_keys [] st = st"
| "episode_loop context_ids save_keys (act_pair # rest) (cv, spk) =
     (case act_pair_loop context_ids save_keys act_pair ([], cv, spk) of
        (new_pair, cv', spk') \<Rightarrow>
          episode_loop context_ids save_keys rest
            (if new_pair \<noteq> [] then cv'\<lparr>convo_dialog := convo_dialog cv' @ [new_pair]\<rparr> else cv', spk'))"

text \<open>The loop over the episodes; its state is the text written to the file so far and
  \<open>speakers\<close>.\<close>

fun act_list_loop ::
  "encoder \<Rightarrow> json list \<Rightarrow> string \<Rightarrow> string \<Rightarrow> dict list list list
     \<Rightarrow> string \<times> json list \<Rightarrow> string \<times> json list" where
  "act_list_loop dumps context_ids save_keys mpath [] st = st"
| "act_list_loop dumps context_ids save_keys mpath (ep # eps) (f, spk) =
     (if ep = [] then act_list_loop dumps context_ids save_keys mpath eps (f, spk)
      else
        (case episode_loop context_ids save_keys ep
                (\<lparr>convo_dialog = [], convo_context = [], convo_metadata_path = mpath\<rparr>, spk) of
           (cv, spk') \<Rightarrow>
             act_list_loop dumps context_ids save_keys mpath eps
               (f @ dumps (convo_json cv) @ [CHR 0x0A], spk')))"

text \<open>
  \<open>Conversations.save_conversations\<close>. The keyword arguments in \<open>kwargs\<close> are those that
  Python binds to \<open>**kwargs\<close>; passing them on with a key \<open>speakers\<close> makes the call of
  \<open>save_metadata\<close> fail, after the conversation file is written.
\<close>

definition save_conversations ::
  "encoder \<Rightarrow> dict list list list \<Rightarrow> string \<Rightarrow> json \<Rightarrow> string \<Rightarrow> string \<Rightarrow> json \<Rightarrow> dict
     \<Rightarrow> string \<Rightarrow> world \<Rightarrow> py_error option \<times> world" where
  "save_conversations dumps act_list datapath v_opt save_keys context_ids v_self_chat kwargs now w =
     (let to_save = Conversations_get_path datapath;
          cids = map JStr (split_on CHR '','' context_ids);
          (f, spk) = act_list_loop dumps cids save_keys (Metadata_get_path to_save) act_list ([], []);
          w1 = write_file to_save f w;
          w2 = print ('' [ Conversations saved to file: '' @ to_save @ '' ]'') w1
      in if ''speakers'' \<in> set (map fst kwargs)
         then (Some (TypeError ''save_metadata() got multiple values for keyword argument 'speakers' ''), w2)
         else (None, save_metadata dumps to_save v_opt v_self_chat (JList spk) kwargs now w2))"

section \<open>A reference JSON codec\<close>

text \<open>
  To run the model on concrete inputs, the two parameters are instantiated with a codec
  that follows CPython's \<open>json\<close> module on the values of type \<open>json\<close>, with characters
  as the code points below 256. \<open>json_dumps\<close> writes what \<open>json.dumps\<close> writes with its
  default arguments: separators \<open>", "\<close> and \<open>": "\<close>, and every character outside the
  printable ASCII range escaped.
\<close>

definition hex_digit :: "nat \<Rightarrow> char" where
  "hex_digit n = ''0123456789abcdef'' ! (n mod 16)"

fun dec_digits :: "nat \<Rightarrow> string" where
  "dec_digits n = (if n < 10 then [hex_digit n] else dec_digits (n div 10) @ [hex_digit (n mod 10)])"

declare dec_digits.simps [simp del]

definition dumps_int :: "int \<Rightarrow> string" where
  "dumps_int i = (if i < 0 then CHR ''-'' # dec_digits (nat (- i)) else dec_digits (nat i))"

definition escape_char :: "char \<Rightarrow> string" where
  "escape_char c =
     (if c = CHR 0x22 then [CHR 0x5C, CHR 0x22]
      else if c = CHR 0x5C then [CHR 0x5C, CHR 0x5C]
      else if c = CHR 0x0A then [CHR 0x5C, CHR ''n'']
      else if c = CHR 0x0D then [CHR 0x5C, CHR ''r'']
      else if c = CHR 0x09 then [CHR 0x5C, CHR ''t'']
      else if c = CHR 0x08 then [CHR 0x5C, CHR ''b'']
      else if c = CHR 0x0C then [CHR 0x5C, CHR ''f'']
      else if (of_char c :: nat) < 32 \<or> (of_char c :: nat) > 126
        then [CHR 0x5C, CHR ''u'', CHR ''0'', CHR ''0'',
              hex_digit (of_char c div 16), hex_digit (of_char c mod 16)]
      else [c])"

definition dumps_str :: "string \<Rightarrow> string" where
  "dumps_str s = [CHR 0x22] @ concat (map escape_char s) @ [CHR 0x22]"

fun join :: "string \<Rightarrow> string list \<Rightarrow> string" where
  "join sep [] = []"
| "join sep [x] = x"
| "join sep (x # y # ys) = x @ sep @ join sep (y # ys)"

fun json_dumps :: "json \<Rightarrow> string" where
  "json_dumps JNull = ''null''"
| "json_dumps (JBool b) = (if b then ''true'' else ''false'')"
| "json_dumps (JInt i) = dumps_int i"
| "json_dumps (JStr s) = dumps_str s"
| "json_dumps (JList xs) = ''['' @ join '', '' (map json_dumps xs) @ '']''"
| "json_dumps (JObj kvs) =
     ''{'' @ join '', '' (map (\<lambda>kv. dumps_str (fst kv) @ '': '' @ json_dumps (snd kv)) kvs) @ ''}''"

text \<open>
  \<open>json_decode\<close> is a recursive-descent decoder with the messages and positions of
  \<open>json.loads\<close>. An error inside the decoder is a message with the number of characters
  left at the error. Numbers with a fraction or an exponent and escapes of code points above 255
  are outside the model and rejected. The recursion is bounded by fuel, two
  units per character.
\<close>

definition ws :: "char \<Rightarrow> bool" where
  "ws c = (c = CHR '' '' \<or> c = CHR 0x09 \<or> c = CHR 0x0A \<or> c = CHR 0x0D)"

definition skip_ws :: "string \<Rightarrow> string" where
  "skip_ws s = dropWhile ws s"

definition is_digit :: "char \<Rightarrow> bool" where
  "is_digit c = ((of_char c :: nat) \<ge> 48 \<and> (of_char c :: nat) \<le> 57)"

definition hex_value :: "char \<Rightarrow> nat option" where
  "hex_value c =
     (let n = (of_char c :: nat) in
      if 48 \<le> n \<and> n \<le> 57 then Some (n - 48)
      else if 97 \<le> n \<and> n \<le> 102 then Some (n - 87)
      else if 65 \<le> n \<and> n \<le> 70 then Some (n - 55)
      else None)"

definition digits_value :: "string \<Rightarrow> nat" where
  "digits_value ds = foldl (\<lambda>a c. 10 * a + (of_char c - 48)) 0 ds"

definition unescape :: "char \<Rightarrow> char option" where
  "unescape e =
     (if e = CHR 0x22 \<or> e = CHR 0x5C \<or> e = CHR ''/'' then Some e
      else if e = CHR ''n'' then Some (CHR 0x0A)
      else if e = CHR ''r'' then Some (CHR 0x0D)
      else if e = CHR ''t'' then Some (CHR 0x09)
      else if e = CHR ''b'' then Some (CHR 0x08)
      else if e = CHR ''f'' then Some (CHR 0x0C)
      else None)"

text \<open>The text after an opening quote, up to the closing one; \<open>q\<close> is the number of
  characters left at the opening quote.\<close>

fun scanstring :: "string \<Rightarrow> string \<Rightarrow> nat \<Rightarrow> (string \<times> nat) + (string \<times> string)" where
  "scanstring acc [] q = Inl (''Unterminated string starting at'', q)"
| "scanstring acc (c # cs) q =
     (if c = CHR 0x22 then Inr (acc, cs)
      else if c = CHR 0x5C then
        (case cs of
           [] \<Rightarrow> Inl (''Unterminated string starting at'', q)
         | e # es \<Rightarrow>
             if e = CHR ''u'' then
               (case map hex_value (take 4 es) of
                  [Some 0, Some 0, Some h, Some l] \<Rightarrow>
                    scanstring (acc @ [char_of (16 * h + l)]) (drop 4 es) q
                | _ \<Rightarrow> Inl (''Invalid '' @ [CHR 0x5C] @ ''uXXXX escape'', length cs))
             else
               (case unescape e of
                  Some ch \<Rightarrow> scanstring (acc @ [ch]) es q
                | None \<Rightarrow> Inl (''Invalid '' @ [CHR 0x5C] @ ''escape'', length cs)))
      else if (of_char c :: nat) < 32 then Inl (''Invalid control character at'', Suc (length cs))
      else scanstring (acc @ [c]) cs q)"

definition scan_number :: "string \<Rightarrow> (string \<times> nat) + (json \<times> string)" where
  "scan_number s =
     (let neg = (s \<noteq> [] \<and> hd s = CHR ''-'');
          ds = (if neg then tl s else s);
          num = (if ds \<noteq> [] \<and> hd ds = CHR ''0'' then ''0'' else takeWhile is_digit ds);
          rest = drop (length num) ds
      in if num = [] then Inl (''Expecting value'', length s)
         else if rest \<noteq> [] \<and> hd rest \<in> set ''.eE'' then Inl (''Number with a fraction or an exponent'', length s)
         else Inr (JInt (if neg then - int (digits_value num) else int (digits_value num)), rest))"

fun parse_value :: "nat \<Rightarrow> string \<Rightarrow> (string \<times> nat) + (json \<times> string)"
  and parse_array :: "nat \<Rightarrow> json list \<Rightarrow> string \<Rightarrow> (string \<times> nat) + (json \<times> string)"
  and parse_object :: "nat \<Rightarrow> dict \<Rightarrow> string \<Rightarrow> (string \<times> nat) + (json \<times> string)"
where
  "parse_value 0 s = Inl (''Out of fuel'', length s)"
| "parse_value (Suc n) [] = Inl (''Expecting value'', 0)"
| "parse_value (Suc n) (c # cs) =
     (if c = CHR 0x22 then
        (case scanstring [] cs (Suc (length cs)) of
           Inl e \<Rightarrow> Inl e
         | Inr (str, rest) \<Rightarrow> Inr (JStr str, rest))
      else if c = CHR ''{'' then
        (case skip_ws cs of
           [] \<Rightarrow> Inl (''Expecting property name enclosed in double quotes'', 0)
         | d # ds \<Rightarrow>
             if d = CHR ''}'' then Inr (JObj [], ds)
             else if d = CHR 0x22 then parse_object n [] ds
             else Inl (''Expecting property name enclosed in double quotes'', Suc (length ds)))
      else if c = CHR ''['' then
        (case skip_ws cs of
           [] \<Rightarrow> Inl (''Expecting value'', 0)
         | d # ds \<Rightarrow>
             if d = CHR '']'' then Inr (JList [], ds)
             else parse_array n [] (d # ds))
      else if take 4 (c # cs) = ''null'' then Inr (JNull, drop 3 cs)
      else if take 4 (c # cs) = ''true'' then Inr (JBool True, drop 3 cs)
      else if take 5 (c # cs) = ''false'' then Inr (JBool False, drop 4 cs)
      else scan_number (c # cs))"
| "parse_array 0 acc s = Inl (''Out of fuel'', length s)"
| "parse_array (Suc n) acc s =
     (case parse_value n s of
        Inl e \<Rightarrow> Inl e
      | Inr (v, rest) \<Rightarrow>
          (case skip_ws rest of
             [] \<Rightarrow> Inl (''Expecting ',' delimiter'', 0)
           | c # cs \<Rightarrow>
               if c = CHR '']'' then Inr (JList (acc @ [v]), cs)
               else if c = CHR '','' then parse_array n (acc @ [v]) (skip_ws cs)
               else Inl (''Expecting ',' delimiter'', Suc (length cs))))"
| "parse_object 0 acc s = Inl (''Out of fuel'', length s)"
| "parse_object (Suc n) acc s =
     (case scanstring [] s (Suc (length s)) of
        Inl e \<Rightarrow> Inl e
      | Inr (key, rest) \<Rightarrow>
          (case skip_ws rest of
             [] \<Rightarrow> Inl (''Expecting ':' delimiter'', 0)
           | c # cs \<Rightarrow>
               if c \<noteq> CHR '':'' then Inl (''Expecting ':' delimiter'', Suc (length cs))
               else
                 (case parse_value n (skip_ws cs) of
                    Inl e \<Rightarrow> Inl e
                  | Inr (v, rest') \<Rightarrow>
                      (case skip_ws rest' of
                         [] \<Rightarrow> Inl (''Expecting ',' delimiter'', 0)
                       | d # ds \<Rightarrow>
                           if d = CHR ''}'' then Inr (JObj (dict_set acc key v), ds)
                           else if d = CHR '','' then
                             (case skip_ws ds of
                                [] \<Rightarrow> Inl (''Expecting property name enclosed in double quotes'', 0)
                              | q # qs \<Rightarrow>
                                  if q = CHR 0x22 then parse_object n (dict_set acc key v) qs
                                  else Inl (''Expecting property name enclosed in double quotes'',
                                            Suc (length qs)))
                           else Inl (''Expecting ',' delimiter'', Suc (length ds))))))"

definition json_decode :: decoder where
  "json_decode s =
     (case parse_value (2 * length s + 2) (skip_ws s) of
        Inl (msg, left) \<Rightarrow> Inl (msg, length s - left)
      | Inr (v, rest) \<Rightarrow>
          (case skip_ws rest of
             [] \<Rightarrow> Inr v
           | c # cs \<Rightarrow> Inl (''Extra data'', length s - Suc (length cs))))"

section \<open>Notions used in the statements\<close>

text \<open>The \<open>id\<close> that \<open>save_conversations\<close> reads from an act, and whether it classifies the
  act as context.\<close>

definition act_id :: "dict \<Rightarrow> json" where
  "act_id ex = dict_get ex ''id'' JNull"

definition is_context_act :: "json list \<Rightarrow> dict \<Rightarrow> bool" where
  "is_context_act context_ids ex = py_in (act_id ex) context_ids"

text \<open>The ids of the acts that are not context, in the order of the acts.\<close>

definition dialog_ids :: "json list \<Rightarrow> dict list \<Rightarrow> json list" where
  "dialog_ids context_ids exs = map act_id (filter (\<lambda>ex. \<not> is_context_act context_ids ex) exs)"

text \<open>The running \<open>speakers\<close> list over a sequence of ids.\<close>

fun add_speakers :: "json list \<Rightarrow> json list \<Rightarrow> json list" where
  "add_speakers spk [] = spk"
| "add_speakers spk (x # xs) = add_speakers (if py_in x spk then spk else spk @ [x]) xs"

text \<open>
  Deduplication in first-seen order, as the specification words it: the first
  occurrence of a value stays, every later value that Python finds equal to it goes.
\<close>

fun first_seen :: "json list \<Rightarrow> json list" where
  "first_seen [] = []"
| "first_seen (x # xs) = x # first_seen (filter (\<lambda>y. \<not> py_same x y) xs)"

text \<open>The pairs of an episode after filtering, and the conversation of an episode, as
  list functions.\<close>

definition filtered_pairs :: "json list \<Rightarrow> string \<Rightarrow> dict list list \<Rightarrow> dict list list" where
  "filtered_pairs context_ids save_keys ep =
     filter (\<lambda>pair. pair \<noteq> [])
       (map (\<lambda>act_pair. map (make_turn save_keys)
               (filter (\<lambda>ex. \<not> is_context_act context_ids ex) act_pair)) ep)"

definition episode_convo :: "json list \<Rightarrow> string \<Rightarrow> string \<Rightarrow> dict list list \<Rightarrow> convo" where
  "episode_convo context_ids save_keys mpath ep =
     \<lparr>convo_dialog = filtered_pairs context_ids save_keys ep,
      convo_context = map (make_turn save_keys) (filter (is_context_act context_ids) (concat ep)),
      convo_metadata_path = mpath\<rparr>"

text \<open>The records that one call of \<open>save_conversations\<close> writes, one for each episode that
  is not empty, and the text of a file with one record on each line.\<close>

definition saved_records :: "json list \<Rightarrow> string \<Rightarrow> string \<Rightarrow> dict list list list \<Rightarrow> json list" where
  "saved_records context_ids save_keys mpath act_list =
     map (\<lambda>ep. convo_json (fst (episode_loop context_ids save_keys ep
            (\<lparr>convo_dialog = [], convo_context = [], convo_metadata_path = mpath\<rparr>, []))))
       (filter (\<lambda>ep. ep \<noteq> []) act_list)"

definition write_lines :: "encoder \<Rightarrow> json list \<Rightarrow> string" where
  "write_lines dumps recs = concat (map (\<lambda>r. dumps r @ [CHR 0x0A]) recs)"

text \<open>The episode of the example in the specification, and a world with no files.\<close>

definition spec_example_episode :: "dict list list" where
  "spec_example_episode =
     [[[(''id'', JStr ''context''), (''text'', JStr ''room A'')]],
      [[(''id'', JStr ''context''), (''text'', JStr ''room A'')],
       [(''id'', JStr ''speaker_1''), (''text'', JStr ''hi'')],
       [(''id'', JStr ''speaker_2''), (''text'', JStr ''hello'')]]]"

definition world0 :: world where
  "world0 = \<lparr>files = Map.empty, console = []\<rparr>"

text \<open>Calls of \<open>__next__\<close> and \<open>reset\<close> in sequence: \<open>next_calls k\<close> calls \<open>__next__\<close>
  \<open>k\<close> times, \<open>run_calls\<close> follows a list of calls. Both collect the values returned by
  \<open>__next__\<close> and stop at the first error.\<close>

fun next_calls :: "nat \<Rightarrow> conversations \<Rightarrow> world \<Rightarrow> py_error + (json list \<times> conversations \<times> world)" where
  "next_calls 0 c w = Inr ([], c, w)"
| "next_calls (Suc k) c w =
     bind (next_conv c w) (\<lambda>(v, c', w').
     bind (next_calls k c' w') (\<lambda>(vs, c'', w''). Inr (v # vs, c'', w'')))"

datatype call = Next | Reset

fun run_calls :: "call list \<Rightarrow> conversations \<Rightarrow> world \<Rightarrow> py_error + (json list \<times> conversations \<times> world)" where
  "run_calls [] c w = Inr ([], c, w)"
| "run_calls (Next # calls) c w =
     bind (next_conv c w) (\<lambda>(v, c', w').
     bind (run_calls calls c' w') (\<lambda>(vs, c'', w''). Inr (v # vs, c'', w'')))"
| "run_calls (Reset # calls) c w = run_calls calls (reset c) w"

text \<open>
  The text of a \<open>JSONDecodeError\<close>, as its constructor builds it from the message, the
  document and the position (\<open>str(e)\<close>), and the text of the other errors.
\<close>

definition error_message :: "py_error \<Rightarrow> string" where
  "error_message e =
     (case e of
        JSONDecodeError msg doc pos \<Rightarrow>
          (let before = take pos doc;
               lineno = length (filter (\<lambda>c. c = CHR 0x0A) before) + 1;
               colno = nat (int pos - rfind (CHR 0x0A) before)
           in msg @ '': line '' @ dec_digits lineno @ '' column '' @ dec_digits colno @
              '' (char '' @ dec_digits pos @ '')'')
      | RuntimeError msg \<Rightarrow> msg
      | KeyError k \<Rightarrow> [CHR 0x27] @ k @ [CHR 0x27]
      | TypeError msg \<Rightarrow> msg
      | IndexError msg \<Rightarrow> msg)"


text \<open>Two entries of a metadata record with the same key and, unless the key is \<open>date\<close>,
  the same value.\<close>

definition same_but_date :: "string \<times> json \<Rightarrow> string \<times> json \<Rightarrow> bool" where
  "same_but_date a b = (fst a = fst b \<and> (fst a \<noteq> ''date'' \<longrightarrow> snd a = snd b))"

text \<open>Worlds and acts on which the statements are run.\<close>

definition world_bad_third_line :: world where
  "world_bad_third_line = \<lparr>files = [''c.jsonl'' \<mapsto> ''{}\<newline>{}\<newline>@''], console = []\<rparr>"

definition world_bad_first_line :: world where
  "world_bad_first_line = \<lparr>files = [''c.jsonl'' \<mapsto> ''@''], console = []\<rparr>"

definition world_no_sidecar :: world where
  "world_no_sidecar = \<lparr>files = [''c.jsonl'' \<mapsto> ''{}\<newline>[1, 2]\<newline>''], console = []\<rparr>"


section \<open>Lemmas\<close>

subsection \<open>Dictionaries\<close>










subsection \<open>The loops of \<open>save_conversations\<close> as list functions\<close>

lemma add_speakers_append: "add_speakers spk (xs @ ys) = add_speakers (add_speakers spk xs) ys"
  by (induction xs arbitrary: spk) auto

lemma dialog_ids_append: "dialog_ids c (xs @ ys) = dialog_ids c xs @ dialog_ids c ys"
  by (simp add: dialog_ids_def)

lemma act_pair_loop_eq:
  "act_pair_loop context_ids save_keys exs (new_pair, cv, spk) =
     (new_pair @ map (make_turn save_keys) (filter (\<lambda>ex. \<not> is_context_act context_ids ex) exs),
      cv\<lparr>convo_context := convo_context cv @
            map (make_turn save_keys) (filter (is_context_act context_ids) exs)\<rparr>,
      add_speakers spk (dialog_ids context_ids exs))"
proof (induction exs arbitrary: new_pair cv spk)
  case Nil
  show ?case by (simp add: dialog_ids_def)
next
  case (Cons ex exs)
  show ?case
    by (simp add: Cons.IH Let_def dialog_ids_def is_context_act_def act_id_def)
qed

lemma episode_loop_eq:
  "episode_loop context_ids save_keys ep (cv, spk) =
     (cv\<lparr>convo_dialog := convo_dialog cv @ filtered_pairs context_ids save_keys ep,
         convo_context := convo_context cv @
            map (make_turn save_keys) (filter (is_context_act context_ids) (concat ep))\<rparr>,
      add_speakers spk (dialog_ids context_ids (concat ep)))"
proof (induction ep arbitrary: cv spk)
  case Nil
  show ?case by (simp add: filtered_pairs_def dialog_ids_def)
next
  case (Cons act_pair rest)
  show ?case
    by (simp add: act_pair_loop_eq Cons.IH filtered_pairs_def dialog_ids_append
        add_speakers_append)
qed

lemma episode_loop_convo:
  "fst (episode_loop context_ids save_keys ep
          (\<lparr>convo_dialog = [], convo_context = [], convo_metadata_path = mpath\<rparr>, spk)) =
     episode_convo context_ids save_keys mpath ep"
  by (simp add: episode_loop_eq episode_convo_def)

lemma act_list_loop_eq:
  "act_list_loop dumps context_ids save_keys mpath act_list (f, spk) =
     (f @ write_lines dumps (saved_records context_ids save_keys mpath act_list),
      add_speakers spk (dialog_ids context_ids (concat (concat act_list))))"
proof (induction act_list arbitrary: f spk)
  case Nil
  show ?case by (simp add: saved_records_def write_lines_def dialog_ids_def)
next
  case (Cons ep eps)
  show ?case
  proof (cases "ep = []")
    case True
    then show ?thesis by (simp add: Cons.IH saved_records_def)
  next
    case False
    then show ?thesis
      by (simp add: Cons.IH episode_loop_eq saved_records_def write_lines_def
          dialog_ids_append add_speakers_append)
  qed
qed

lemma py_in_snoc: "py_in y (spk @ [x]) = (py_in y spk \<or> py_same x y)"
  by (simp add: py_in_def)

lemma add_speakers_first_seen:
  "add_speakers spk xs = spk @ first_seen (filter (\<lambda>y. \<not> py_in y spk) xs)"
proof (induction xs arbitrary: spk)
  case Nil
  show ?case by simp
next
  case (Cons x xs)
  show ?case
  proof (cases "py_in x spk")
    case True
    then show ?thesis by (simp add: Cons.IH)
  next
    case False
    have "filter (\<lambda>y. \<not> py_in y (spk @ [x])) xs =
          filter (\<lambda>y. \<not> py_same x y) (filter (\<lambda>y. \<not> py_in y spk) xs)"
      by (simp add: py_in_snoc conj_commute)
    with False show ?thesis by (simp add: Cons.IH)
  qed
qed

lemma first_seen_subset: "set (first_seen xs) \<subseteq> set xs"
  by (induction xs rule: first_seen.induct) auto

lemma first_seen_covers: "x \<in> set xs \<Longrightarrow> py_in x (first_seen xs)"
proof (induction xs rule: first_seen.induct)
  case 1
  then show ?case by simp
next
  case (2 a xs)
  show ?case
  proof (cases "py_same a x")
    case True
    then show ?thesis by (simp add: py_in_def)
  next
    case False
    with "2.prems" have "x \<in> set (filter (\<lambda>y. \<not> py_same a y) xs)"
      by (auto simp: py_same_def)
    then have "py_in x (first_seen (filter (\<lambda>y. \<not> py_same a y) xs))"
      by (rule "2.IH")
    then show ?thesis by (simp add: py_in_def)
  qed
qed

lemma first_seen_unequal: "sorted_wrt (\<lambda>a b. \<not> py_same a b) (first_seen xs)"
proof (induction xs rule: first_seen.induct)
  case 1
  show ?case by simp
next
  case (2 a xs)
  have "\<forall>y\<in>set (first_seen (filter (\<lambda>y. \<not> py_same a y) xs)). \<not> py_same a y"
    using first_seen_subset [of "filter (\<lambda>y. \<not> py_same a y) xs"] by auto
  with "2.IH" show ?case
    unfolding first_seen.simps sorted_wrt.simps by blast
qed

lemma first_seen_distinct: "distinct (first_seen xs)"
proof (induction xs rule: first_seen.induct)
  case 1
  show ?case by simp
next
  case (2 a xs)
  have "a \<notin> set (first_seen (filter (\<lambda>y. \<not> py_same a y) xs))"
    using first_seen_subset [of "filter (\<lambda>y. \<not> py_same a y) xs"]
    by (auto simp: py_same_def)
  with "2.IH" show ?case
    unfolding first_seen.simps distinct.simps by blast
qed

lemma get_path_differ: "Conversations_get_path p \<noteq> Metadata_get_path q"
proof
  assume "Conversations_get_path p = Metadata_get_path q"
  then have "last (fst (splitext p) @ ''.jsonl'') = last (fst (splitext q) @ ''.metadata'')"
    by (simp add: Conversations_get_path_def Metadata_get_path_def)
  then show False by simp
qed

lemma save_conversations_eq:
  "save_conversations dumps act_list datapath v_opt save_keys context_ids v_self_chat kwargs now w =
     (let to_save = Conversations_get_path datapath;
          cids = map JStr (split_on CHR '','' context_ids);
          w2 = print ('' [ Conversations saved to file: '' @ to_save @ '' ]'')
                 (write_file to_save
                    (write_lines dumps (saved_records cids save_keys (Metadata_get_path to_save) act_list)) w)
      in if ''speakers'' \<in> set (map fst kwargs)
         then (Some (TypeError ''save_metadata() got multiple values for keyword argument 'speakers' ''), w2)
         else (None, save_metadata dumps to_save v_opt v_self_chat
                 (JList (first_seen (dialog_ids cids (concat (concat act_list))))) kwargs now w2))"
  by (simp add: save_conversations_def act_list_loop_eq Let_def add_speakers_first_seen py_in_def)

lemma act_list_loop_speakers:
  "snd (act_list_loop dumps context_ids save_keys mpath act_list ([], [])) =
     first_seen (dialog_ids context_ids (concat (concat act_list)))"
  by (simp add: act_list_loop_eq add_speakers_first_seen py_in_def)

lemma saved_records_append:
  "saved_records c k m (xs @ ys) = saved_records c k m xs @ saved_records c k m ys"
  by (simp add: saved_records_def)

lemma write_lines_append: "write_lines d (xs @ ys) = write_lines d xs @ write_lines d ys"
  by (simp add: write_lines_def)

lemma act_list_loop_text:
  "fst (act_list_loop dumps context_ids save_keys mpath act_list ([], [])) =
     write_lines dumps (saved_records context_ids save_keys mpath act_list)"
  by (simp add: act_list_loop_eq)

lemma filtered_pairs_all_context:
  "\<forall>act_pair\<in>set ep. \<forall>ex\<in>set act_pair. is_context_act context_ids ex \<Longrightarrow>
     filtered_pairs context_ids save_keys ep = []"
  by (induction ep) (auto simp: filtered_pairs_def)

lemma filter_all_context:
  "\<forall>act_pair\<in>set ep. \<forall>ex\<in>set act_pair. is_context_act context_ids ex \<Longrightarrow>
     filter (is_context_act context_ids) (concat ep) = concat ep"
  by (induction ep) auto

lemma paths_c:
  "Conversations_get_path ''c'' = ''c.jsonl''"
  "Metadata_get_path ''c.jsonl'' = ''c.metadata''"
  by code_simp+

subsection \<open>Iteration\<close>

lemma py_index_in_range:
  "i < length xs \<Longrightarrow> py_index xs (int i) = Inr (xs ! i)"
  by (simp add: py_index_def Let_def)

lemma next_conv_in_range:
  "i < length (conversations c) \<Longrightarrow> iterator_idx c = int i \<Longrightarrow>
     next_conv c w = Inr (conversations c ! i, c\<lparr>iterator_idx := int (Suc i)\<rparr>, w)"
  by (simp add: next_conv_def num_conversations_def py_index_in_range bind_def add.commute)

lemma next_conv_at_end:
  "iterator_idx c = int (length (conversations c)) \<Longrightarrow>
     next_conv c w = Inr (JNull, c\<lparr>iterator_idx := 0\<rparr>, print ''You reached the end of the conversations.'' w)"
  by (simp add: next_conv_def num_conversations_def reset_def)

lemma next_calls_from:
  "i + k \<le> length (conversations c) \<Longrightarrow> iterator_idx c = int i \<Longrightarrow>
     next_calls k c w = Inr (take k (drop i (conversations c)), c\<lparr>iterator_idx := int (i + k)\<rparr>, w)"
proof (induction k arbitrary: i c)
  case 0
  then show ?case by simp
next
  case (Suc k)
  from Suc.prems have i: "i < length (conversations c)" by simp
  have step: "next_conv c w = Inr (conversations c ! i, c\<lparr>iterator_idx := int (Suc i)\<rparr>, w)"
    using i Suc.prems(2) by (rule next_conv_in_range)
  have rest: "next_calls k (c\<lparr>iterator_idx := int (Suc i)\<rparr>) w =
      Inr (take k (drop (Suc i) (conversations c)), c\<lparr>iterator_idx := int (Suc i + k)\<rparr>, w)"
    using Suc.IH [of "Suc i" "c\<lparr>iterator_idx := int (Suc i)\<rparr>"] Suc.prems by simp
  have "take (Suc k) (drop i (conversations c)) = conversations c ! i # take k (drop (Suc i) (conversations c))"
    using i by (simp add: Cons_nth_drop_Suc [symmetric])
  then show ?case using rest by (simp add: step bind_def)
qed

lemma next_calls_append:
  "next_calls j c w = Inr (vs, c', w') \<Longrightarrow>
     next_calls (j + k) c w = bind (next_calls k c' w') (\<lambda>(us, c'', w''). Inr (vs @ us, c'', w''))"
proof (induction j arbitrary: c w vs)
  case 0
  then show ?case by (auto simp: bind_def split: sum.splits)
next
  case (Suc j)
  then show ?case
    by (auto simp: bind_def split: sum.splits prod.splits)
qed

lemma next_conv_total:
  "0 \<le> iterator_idx c \<Longrightarrow> iterator_idx c \<le> int (length (conversations c)) \<Longrightarrow>
     \<exists>v c1 w1. next_conv c w = Inr (v, c1, w1) \<and> conversations c1 = conversations c \<and>
       metadata c1 = metadata c \<and> 0 \<le> iterator_idx c1 \<and>
       iterator_idx c1 \<le> int (length (conversations c))"
  by (auto simp: next_conv_def num_conversations_def reset_def py_index_def bind_def Let_def)

lemma run_calls_invariant:
  "0 \<le> iterator_idx c \<Longrightarrow> iterator_idx c \<le> int (length (conversations c)) \<Longrightarrow>
     \<exists>vs c' w'. run_calls calls c w = Inr (vs, c', w') \<and> conversations c' = conversations c \<and>
       metadata c' = metadata c \<and>
       0 \<le> iterator_idx c' \<and> iterator_idx c' \<le> int (length (conversations c))"
proof (induction calls arbitrary: c w)
  case Nil
  then show ?case by simp
next
  case (Cons a calls)
  show ?case
  proof (cases a)
    case Reset
    have "\<exists>vs c' w'. run_calls calls (reset c) w = Inr (vs, c', w') \<and>
        conversations c' = conversations (reset c) \<and> metadata c' = metadata (reset c) \<and>
        0 \<le> iterator_idx c' \<and> iterator_idx c' \<le> int (length (conversations (reset c)))"
      by (rule Cons.IH) (simp_all add: reset_def)
    then show ?thesis by (simp add: Reset reset_def)
  next
    case Next
    have "\<exists>v c1 w1. next_conv c w = Inr (v, c1, w1) \<and> conversations c1 = conversations c \<and>
        metadata c1 = metadata c \<and> 0 \<le> iterator_idx c1 \<and>
        iterator_idx c1 \<le> int (length (conversations c))"
      using Cons.prems by (rule next_conv_total)
    then obtain v c1 w1 where step: "next_conv c w = Inr (v, c1, w1)"
      and c1: "conversations c1 = conversations c" "metadata c1 = metadata c"
        "0 \<le> iterator_idx c1" "iterator_idx c1 \<le> int (length (conversations c))"
      by blast
    have "\<exists>vs c' w'. run_calls calls c1 w1 = Inr (vs, c', w') \<and>
        conversations c' = conversations c1 \<and> metadata c' = metadata c1 \<and>
        0 \<le> iterator_idx c' \<and> iterator_idx c' \<le> int (length (conversations c1))"
      by (rule Cons.IH) (simp_all add: c1)
    then show ?thesis by (auto simp: Next step bind_def c1)
  qed
qed

subsection \<open>Turn records and the example\<close>




lemma example_cids: "map JStr (split_on CHR '','' ''context'') = [JStr ''context'']"
  by code_simp

lemma example_records:
  "saved_records [JStr ''context''] ''text,labels,eval_labels'' mpath [spec_example_episode] =
     [JObj [(''dialog'', JList [JList
              [JObj [(''text'', JStr ''hi''), (''labels'', JStr []), (''eval_labels'', JStr []),
                     (''id'', JStr ''speaker_1'')],
               JObj [(''text'', JStr ''hello''), (''labels'', JStr []), (''eval_labels'', JStr []),
                     (''id'', JStr ''speaker_2'')]]]),
            (''context'', JList
              [JObj [(''text'', JStr ''room A''), (''labels'', JStr []), (''eval_labels'', JStr []),
                     (''id'', JStr ''context'')],
               JObj [(''text'', JStr ''room A''), (''labels'', JStr []), (''eval_labels'', JStr []),
                     (''id'', JStr ''context'')]]),
            (''metadata_path'', JStr mpath)]]"
  by code_simp

lemma example_speakers:
  "first_seen (dialog_ids [JStr ''context''] (concat (concat [spec_example_episode]))) =
     [JStr ''speaker_1'', JStr ''speaker_2'']"
  by code_simp

subsection \<open>Lines\<close>



lemma splitlines_from_no_linebreak:
  "\<forall>c\<in>set cur. \<not> linebreak c \<Longrightarrow> l \<in> set (splitlines_from cur s) \<Longrightarrow> c \<in> set l \<Longrightarrow>
     \<not> linebreak c"
proof (induction cur s arbitrary: l rule: splitlines_from.induct)
  case (1 cur)
  then show ?case by (auto split: if_splits)
next
  case (2 cur c' cs)
  show ?case
  proof (cases "c' = CHR 0x0D")
    case True
    show ?thesis
    proof (cases cs)
      case Nil
      with True "2.prems" show ?thesis by auto
    next
      case (Cons d ds)
      show ?thesis
      proof (cases "d = CHR 0x0A")
        case dn: True
        from "2.prems"(2) True Cons dn
        have "l = cur \<or> l \<in> set (splitlines_from [] ds)" by simp
        then show ?thesis
        proof
          assume "l = cur" with "2.prems" show ?thesis by simp
        next
          assume "l \<in> set (splitlines_from [] ds)"
          from "2.IH"(1) [OF True Cons dn _ this "2.prems"(3)] show ?thesis by simp
        qed
      next
        case dn: False
        from "2.prems"(2) True Cons dn
        have "l = cur \<or> l \<in> set (splitlines_from [] cs)" by simp
        then show ?thesis
        proof
          assume "l = cur" with "2.prems" show ?thesis by simp
        next
          assume "l \<in> set (splitlines_from [] cs)"
          from "2.IH"(2) [OF True Cons dn _ this "2.prems"(3)] show ?thesis by simp
        qed
      qed
    qed
  next
    case False
    show ?thesis
    proof (cases "linebreak c'")
      case lb: True
      from "2.prems"(2) False lb
      have "l = cur \<or> l \<in> set (splitlines_from [] cs)" by simp
      then show ?thesis
      proof
        assume "l = cur" with "2.prems" show ?thesis by simp
      next
        assume "l \<in> set (splitlines_from [] cs)"
        from "2.IH"(3) [OF False lb _ this "2.prems"(3)] show ?thesis by simp
      qed
    next
      case lb: False
      from "2.prems"(2) False lb
      have in_rest: "l \<in> set (splitlines_from (cur @ [c']) cs)" by simp
      have "\<forall>c\<in>set (cur @ [c']). \<not> linebreak c" using "2.prems"(1) lb by simp
      from "2.IH"(4) [OF False lb this in_rest "2.prems"(3)] show ?thesis .
    qed
  qed
qed

lemma splitlines_no_newline:
  "l \<in> set (splitlines s) \<Longrightarrow> CHR 0x0A \<notin> set l"
proof
  assume l: "l \<in> set (splitlines s)" and c: "CHR 0x0A \<in> set l"
  have "\<not> linebreak (CHR 0x0A)"
    by (rule splitlines_from_no_linebreak [of "[]" l s]) (use l c in \<open>simp_all add: splitlines_def\<close>)
  then show False by (simp add: linebreak_def)
qed

subsection \<open>Parsing the lines\<close>

lemma parse_lines_ok:
  "map decode ls = map Inr cs \<Longrightarrow> parse_lines decode ls acc = Inr (acc @ cs)"
proof (induction ls arbitrary: acc cs)
  case Nil
  then show ?case by simp
next
  case (Cons l ls)
  then obtain c cs' where cs: "cs = c # cs'" and c: "decode l = Inr c"
    and rest: "map decode ls = map Inr cs'"
    by (cases cs) auto
  show ?case by (simp add: json_loads_def c cs Cons.IH [OF rest])
qed

lemma parse_lines_fail:
  "\<forall>x\<in>set pre. \<exists>v. decode x = Inr v \<Longrightarrow> decode l = Inl (msg, pos) \<Longrightarrow>
     parse_lines decode (pre @ l # post) acc = Inl (JSONDecodeError msg l pos)"
proof (induction pre arbitrary: acc)
  case Nil
  then show ?case by (simp add: json_loads_def)
next
  case (Cons x pre)
  then obtain v where v: "decode x = Inr v" by auto
  show ?case using Cons by (simp add: json_loads_def v)
qed

lemma parse_lines_result:
  "parse_lines decode ls acc = Inr cs \<Longrightarrow> \<exists>cs'. cs = acc @ cs' \<and> map decode ls = map Inr cs'"
proof (induction ls arbitrary: acc cs)
  case Nil
  then show ?case by simp
next
  case (Cons l ls)
  from Cons.prems obtain c where c: "decode l = Inr c"
    and rest: "parse_lines decode ls (acc @ [c]) = Inr cs"
    by (auto simp: json_loads_def split: sum.splits prod.splits)
  from Cons.IH [OF rest] obtain cs' where "cs = (acc @ [c]) @ cs'" "map decode ls = map Inr cs'"
    by blast
  then show ?case using c by (intro exI [of _ "c # cs'"]) simp
qed

lemma dec_digits_1: "dec_digits (Suc 0) = ''1''"
  by code_simp

lemma rfind_absent: "c \<notin> set s \<Longrightarrow> rfind c s = - 1"
  by (simp add: rfind_def)

lemma error_message_one_line:
  assumes "CHR 0x0A \<notin> set doc"
  shows "error_message (JSONDecodeError msg doc pos) =
     msg @ '': line 1 column '' @ dec_digits (pos + 1) @ '' (char '' @ dec_digits pos @ '')''"
proof -
  have no: "CHR 0x0A \<notin> set (take pos doc)"
    using assms by (auto dest: in_set_takeD)
  then have "filter (\<lambda>c. c = CHR 0x0A) (take pos doc) = []"
    by (auto simp: filter_empty_conv)
  moreover have "nat (int pos - rfind (CHR 0x0A) (take pos doc)) = pos + 1"
    by (simp add: rfind_absent [OF no])
  ultimately show ?thesis
    by (simp add: error_message_def Let_def dec_digits_1)
qed

lemma load_conversations_file:
  "isfile w datapath \<Longrightarrow>
     load_conversations decode datapath w = parse_lines decode (splitlines (read_file w datapath)) []"
  by (simp add: load_conversations_def)

subsection \<open>Saving twice\<close>

lemma dict_set_same_but_date:
  "list_all2 same_but_date d1 d2 \<Longrightarrow> list_all2 same_but_date (dict_set d1 k v) (dict_set d2 k v)"
proof (induction d1 d2 rule: list_all2_induct)
  case Nil
  show ?case by (simp add: same_but_date_def)
next
  case (Cons a d1 b d2)
  obtain ka va kb vb where ab: "a = (ka, va)" "b = (kb, vb)"
    by (cases a, cases b) auto
  from Cons show ?case
    by (auto simp: ab same_but_date_def)
qed

lemma foldl_dict_set_same_but_date:
  "list_all2 same_but_date d1 d2 \<Longrightarrow>
     list_all2 same_but_date (foldl (\<lambda>md (k, v). dict_set md k v) d1 kwargs)
       (foldl (\<lambda>md (k, v). dict_set md k v) d2 kwargs)"
proof (induction kwargs arbitrary: d1 d2)
  case Nil
  then show ?case by simp
next
  case (Cons kv kwargs)
  obtain k v where kv: "kv = (k, v)" by (cases kv)
  show ?case
    using Cons.IH [OF dict_set_same_but_date [OF Cons.prems, of k v]] by (simp add: kv)
qed

lemma metadata_record_same_but_date:
  "list_all2 same_but_date (metadata_record now1 v_opt v_self_chat v_speakers kwargs)
     (metadata_record now2 v_opt v_self_chat v_speakers kwargs)"
  unfolding metadata_record_def
  by (rule foldl_dict_set_same_but_date) (simp add: same_but_date_def)

lemma save_conversations_files:
  fixes dumps :: encoder
  shows "files (snd (save_conversations dumps act_list datapath v_opt save_keys context_ids v_self_chat
            kwargs now w)) =
     (let to_save = Conversations_get_path datapath;
          cids = map JStr (split_on CHR '','' context_ids);
          written = write_lines dumps (saved_records cids save_keys (Metadata_get_path to_save) act_list)
      in if ''speakers'' \<in> set (map fst kwargs) then (files w)(to_save \<mapsto> written)
         else (files w)(to_save \<mapsto> written,
                Metadata_get_path to_save \<mapsto>
                  dumps (JObj (metadata_record now v_opt v_self_chat
                    (JList (first_seen (dialog_ids cids (concat (concat act_list))))) kwargs))))"
  by (simp add: save_conversations_eq Let_def save_metadata_def write_file_def print_def)

lemma save_conversations_outcome:
  fixes dumps :: encoder
  shows "fst (save_conversations dumps act_list datapath v_opt save_keys context_ids v_self_chat
            kwargs now w) =
     (if ''speakers'' \<in> set (map fst kwargs)
      then Some (TypeError ''save_metadata() got multiple values for keyword argument 'speakers' '')
      else None)"
  by (simp add: save_conversations_eq Let_def)

subsection \<open>Saving and loading\<close>



section \<open>The speakers list\<close>

text \<open>
  C3. For every act list and every \<open>context_ids\<close> argument, the \<open>speakers\<close> list that
  \<open>save_conversations\<close> hands to \<open>save_metadata\<close> holds the ids of the acts that were not
  classified as context, deduplicated in first-seen order: it equals \<open>first_seen\<close> of those
  ids, every entry is such an id, every such id is found in it by Python's \<open>in\<close>, and no
  two entries are equal, neither as values nor for Python's \<open>==\<close>.
\<close>

theorem speakers_first_seen:
  fixes dumps :: encoder and context_ids save_keys datapath :: string
    and act_list :: "dict list list list"
  defines "cids \<equiv> map JStr (split_on CHR '','' context_ids)"
  defines "seen \<equiv> dialog_ids cids (concat (concat act_list))"
  defines "to_save \<equiv> Conversations_get_path datapath"
  defines "spk \<equiv> snd (act_list_loop dumps cids save_keys (Metadata_get_path to_save) act_list ([], []))"
  shows "spk = first_seen seen
       \<and> set spk \<subseteq> set seen
       \<and> (\<forall>x\<in>set seen. py_in x spk)
       \<and> distinct spk
       \<and> sorted_wrt (\<lambda>a b. \<not> py_same a b) spk
       \<and> (''speakers'' \<notin> set (map fst kwargs) \<longrightarrow>
           save_conversations dumps act_list datapath v_opt save_keys context_ids v_self_chat kwargs now w =
             (None, save_metadata dumps to_save v_opt v_self_chat (JList spk) kwargs now
                (print ('' [ Conversations saved to file: '' @ to_save @ '' ]'')
                   (write_file to_save
                      (fst (act_list_loop dumps cids save_keys (Metadata_get_path to_save) act_list ([], [])))
                      w))))"
proof (intro conjI)
  show "spk = first_seen seen"
    by (simp add: spk_def seen_def act_list_loop_speakers)
  show "set spk \<subseteq> set seen"
    by (simp add: spk_def seen_def act_list_loop_speakers first_seen_subset)
  show "\<forall>x\<in>set seen. py_in x spk"
    by (simp add: spk_def seen_def act_list_loop_speakers first_seen_covers)
  show "distinct spk"
    by (simp add: spk_def act_list_loop_speakers first_seen_distinct)
  show "sorted_wrt (\<lambda>a b. \<not> py_same a b) spk"
    by (simp add: spk_def act_list_loop_speakers first_seen_unequal)
  show "''speakers'' \<notin> set (map fst kwargs) \<longrightarrow>
           save_conversations dumps act_list datapath v_opt save_keys context_ids v_self_chat kwargs now w =
             (None, save_metadata dumps to_save v_opt v_self_chat (JList spk) kwargs now
                (print ('' [ Conversations saved to file: '' @ to_save @ '' ]'')
                   (write_file to_save
                      (fst (act_list_loop dumps cids save_keys (Metadata_get_path to_save) act_list ([], [])))
                      w)))"
    by (simp add: spk_def cids_def to_save_def save_conversations_def Let_def split: prod.splits)
qed

theorem speakers_first_seen_witness:
  "''speakers'' \<notin> set (map fst ([] :: dict))
   \<and> snd (act_list_loop json_dumps [JStr ''context''] ''text'' ''c.metadata''
        [spec_example_episode,
         [[[(''id'', JStr ''speaker_1''), (''text'', JStr ''again'')], [(''text'', JStr ''who'')]]]]
        ([], [])) = [JStr ''speaker_1'', JStr ''speaker_2'', JNull]
   \<and> first_seen (dialog_ids [JStr ''context'']
        (concat (concat [spec_example_episode,
         [[[(''id'', JStr ''speaker_1''), (''text'', JStr ''again'')], [(''text'', JStr ''who'')]]]])))
       = [JStr ''speaker_1'', JStr ''speaker_2'', JNull]
   \<and> fst (save_conversations json_dumps
        [spec_example_episode,
         [[[(''id'', JStr ''speaker_1''), (''text'', JStr ''again'')], [(''text'', JStr ''who'')]]]]
        ''c'' JNull ''text'' ''context'' (JBool False) [] ''2020-01-01'' world0) = None"
proof -
  let ?acts = "[spec_example_episode,
         [[[(''id'', JStr ''speaker_1''), (''text'', JStr ''again'')], [(''text'', JStr ''who'')]]]]"
  note inst = speakers_first_seen [where dumps = json_dumps and context_ids = "''context''"
      and act_list = "?acts" and save_keys = "''text''" and datapath = "''c''" and kwargs = "[]"
      and v_opt = JNull and v_self_chat = "JBool False" and now = "''2020-01-01''" and w = world0]
  have cids: "map JStr (split_on CHR '','' ''context'') = [JStr ''context'']"
    by code_simp
  have spk: "snd (act_list_loop json_dumps [JStr ''context''] ''text'' ''c.metadata'' ?acts ([], [])) =
      [JStr ''speaker_1'', JStr ''speaker_2'', JNull]"
    by code_simp
  have seen: "first_seen (dialog_ids [JStr ''context''] (concat (concat ?acts))) =
      [JStr ''speaker_1'', JStr ''speaker_2'', JNull]"
    using inst [THEN conjunct1] by (simp only: cids paths_c spk)
  have no_kw: "''speakers'' \<notin> set (map fst ([] :: dict))"
    by simp
  have "fst (save_conversations json_dumps ?acts ''c'' JNull ''text'' ''context'' (JBool False) []
      ''2020-01-01'' world0) = None"
    using inst no_kw by simp
  with no_kw spk seen show ?thesis
    by (simp only: simp_thms)
qed

section \<open>Lines of the conversation file\<close>

text \<open>
  C1, as the code has it. The text written for an act list is the text for the episodes
  before, the text for the episode, and the text for the episodes after. An episode that
  is an empty sequence adds nothing; every other episode adds exactly one record and a
  line end, whatever its acts are. The record of an episode does not depend on the
  speakers seen before. If every act of the episode is classified as context, the record
  has no dialog pair, and its context has one entry for each act of the episode.
\<close>

theorem episode_lines:
  fixes dumps :: encoder
  defines "start \<equiv> \<lambda>mpath. \<lparr>convo_dialog = [], convo_context = [], convo_metadata_path = mpath\<rparr>"
  defines "text_of \<equiv> \<lambda>context_ids save_keys mpath act_list.
     fst (act_list_loop dumps context_ids save_keys mpath act_list ([], []))"
  shows "text_of context_ids save_keys mpath (before @ [ep] @ after) =
           text_of context_ids save_keys mpath before @
           (if ep = [] then []
            else dumps (convo_json (fst (episode_loop context_ids save_keys ep (start mpath, [])))) @ [CHR 0x0A]) @
           text_of context_ids save_keys mpath after
       \<and> fst (episode_loop context_ids save_keys ep (start mpath, spk)) =
           fst (episode_loop context_ids save_keys ep (start mpath, []))
       \<and> ((\<forall>act_pair\<in>set ep. \<forall>ex\<in>set act_pair. py_in (dict_get ex ''id'' JNull) context_ids) \<longrightarrow>
            fst (episode_loop context_ids save_keys ep (start mpath, spk)) =
              \<lparr>convo_dialog = [], convo_context = map (make_turn save_keys) (concat ep),
               convo_metadata_path = mpath\<rparr>)"
proof (intro conjI impI)
  show "text_of context_ids save_keys mpath (before @ [ep] @ after) =
           text_of context_ids save_keys mpath before @
           (if ep = [] then []
            else dumps (convo_json (fst (episode_loop context_ids save_keys ep (start mpath, [])))) @ [CHR 0x0A]) @
           text_of context_ids save_keys mpath after"
    unfolding text_of_def start_def act_list_loop_text saved_records_append write_lines_append
    by (simp add: saved_records_def write_lines_def)
  show "fst (episode_loop context_ids save_keys ep (start mpath, spk)) =
           fst (episode_loop context_ids save_keys ep (start mpath, []))"
    by (simp add: start_def episode_loop_convo)
next
  assume "\<forall>act_pair\<in>set ep. \<forall>ex\<in>set act_pair. py_in (dict_get ex ''id'' JNull) context_ids"
  then have all: "\<forall>act_pair\<in>set ep. \<forall>ex\<in>set act_pair. is_context_act context_ids ex"
    by (simp add: is_context_act_def act_id_def)
  show "fst (episode_loop context_ids save_keys ep (start mpath, spk)) =
              \<lparr>convo_dialog = [], convo_context = map (make_turn save_keys) (concat ep),
               convo_metadata_path = mpath\<rparr>"
    by (simp add: start_def episode_loop_convo episode_convo_def
        filtered_pairs_all_context [OF all] filter_all_context [OF all])
qed

theorem episode_lines_witness:
  "list_all (list_all (\<lambda>ex. py_in (dict_get ex ''id'' JNull) [JStr ''context'']))
     [[[(''id'', JStr ''context''), (''text'', JStr ''room A'')]], []]
   \<and> fst (episode_loop [JStr ''context''] ''text''
        [[[(''id'', JStr ''context''), (''text'', JStr ''room A'')]], []]
        (\<lparr>convo_dialog = [], convo_context = [], convo_metadata_path = ''c.metadata''\<rparr>,
         [JStr ''speaker_1''])) =
       \<lparr>convo_dialog = [],
        convo_context = [[(''text'', JStr ''room A''), (''id'', JStr ''context'')]],
        convo_metadata_path = ''c.metadata''\<rparr>
   \<and> fst (act_list_loop json_dumps [JStr ''context''] ''text'' ''c.metadata''
        ([[]] @ [[[[(''id'', JStr ''context''), (''text'', JStr ''room A'')]], []]] @ [[]]) ([], [])) =
       json_dumps (JObj [(''dialog'', JList []),
         (''context'', JList [JObj [(''text'', JStr ''room A''), (''id'', JStr ''context'')]]),
         (''metadata_path'', JStr ''c.metadata'')]) @ [CHR 0x0A]"
proof -
  let ?ep = "[[[(''id'', JStr ''context''), (''text'', JStr ''room A'')]], []] :: dict list list"
  note inst = episode_lines [where dumps = json_dumps and context_ids = "[JStr ''context'']"
      and save_keys = "''text''" and mpath = "''c.metadata''" and before = "[[]]" and ep = "?ep"
      and after = "[[]]" and spk = "[JStr ''speaker_1'']"]
  have all: "\<forall>act_pair\<in>set ?ep. \<forall>ex\<in>set act_pair. py_in (dict_get ex ''id'' JNull) [JStr ''context'']"
    by code_simp
  have turn: "map (make_turn ''text'') (concat ?ep) = [[(''text'', JStr ''room A''), (''id'', JStr ''context'')]]"
    by code_simp
  have rec: "fst (episode_loop [JStr ''context''] ''text'' ?ep
        (\<lparr>convo_dialog = [], convo_context = [], convo_metadata_path = ''c.metadata''\<rparr>,
         [JStr ''speaker_1''])) =
       \<lparr>convo_dialog = [],
        convo_context = [[(''text'', JStr ''room A''), (''id'', JStr ''context'')]],
        convo_metadata_path = ''c.metadata''\<rparr>"
    using inst [THEN conjunct2, THEN conjunct2] all turn by simp
  have empty: "fst (act_list_loop json_dumps [JStr ''context''] ''text'' ''c.metadata'' [[]] ([], [])) = []"
    by simp
  have "fst (act_list_loop json_dumps [JStr ''context''] ''text'' ''c.metadata''
        ([[]] @ [?ep] @ [[]]) ([], [])) =
       json_dumps (convo_json (fst (episode_loop [JStr ''context''] ''text'' ?ep
        (\<lparr>convo_dialog = [], convo_context = [], convo_metadata_path = ''c.metadata''\<rparr>, [])))) @ [CHR 0x0A]"
    using inst [THEN conjunct1] by (simp only: empty append_Nil append_Nil2 list.simps if_False)
  moreover have "fst (episode_loop [JStr ''context''] ''text'' ?ep
        (\<lparr>convo_dialog = [], convo_context = [], convo_metadata_path = ''c.metadata''\<rparr>, [])) =
       \<lparr>convo_dialog = [],
        convo_context = [[(''text'', JStr ''room A''), (''id'', JStr ''context'')]],
        convo_metadata_path = ''c.metadata''\<rparr>"
    using inst [THEN conjunct2, THEN conjunct1] rec by simp
  ultimately have written: "fst (act_list_loop json_dumps [JStr ''context''] ''text'' ''c.metadata''
        ([[]] @ [?ep] @ [[]]) ([], [])) =
       json_dumps (JObj [(''dialog'', JList []),
         (''context'', JList [JObj [(''text'', JStr ''room A''), (''id'', JStr ''context'')]]),
         (''metadata_path'', JStr ''c.metadata'')]) @ [CHR 0x0A]"
    by (simp add: convo_json_def)
  have "list_all (list_all (\<lambda>ex. py_in (dict_get ex ''id'' JNull) [JStr ''context''])) ?ep"
    using all by (simp add: list_all_iff)
  with rec written show ?thesis
    by (simp only: simp_thms)
qed

text \<open>
  The episode \<open>[[]]\<close>, one pair with no act, produces no filtered pair and no context
  entry, and the conversation file still gets a line for it.
\<close>

theorem single_empty_pair_is_written:
  "fst (episode_loop [JStr ''context''] ''text,labels,eval_labels'' [[]]
          (\<lparr>convo_dialog = [], convo_context = [], convo_metadata_path = ''c.metadata''\<rparr>, [])) =
     \<lparr>convo_dialog = [], convo_context = [], convo_metadata_path = ''c.metadata''\<rparr>
   \<and> splitlines (read_file (snd (save_conversations json_dumps [[[]]] ''c'' JNull
        ''text,labels,eval_labels'' ''context'' (JBool False) [] ''2020-01-01'' world0)) ''c.jsonl'') =
     [json_dumps (JObj [(''dialog'', JList []), (''context'', JList []),
                        (''metadata_path'', JStr ''c.metadata'')])]"
  by code_simp

section \<open>Iteration and indexed access\<close>

text \<open>
  C5. For an archive that holds the conversations \<open>cs\<close> and has its cursor at 0: the
  first \<open>k\<close> calls of \<open>__next__\<close>, for every \<open>k\<close> up to the number of conversations,
  return the first \<open>k\<close> conversations in file order and leave the cursor at \<open>k\<close>; one call
  more returns \<open>None\<close>, prints the notice and puts the cursor back to 0, so that the
  archive is as it was at the start; the call after that is a first call again and, when
  there is a conversation, returns conversation 0; and every sequence of \<open>__next__\<close> and
  \<open>reset\<close> calls runs without error, keeps the conversations and leaves the cursor
  between 0 and the number of conversations.
\<close>

theorem next_cycle:
  fixes cs :: "json list" and m :: "metadata option" and w :: world
  defines "c0 \<equiv> \<lparr>conversations = cs, metadata = m, iterator_idx = 0\<rparr>"
  defines "w_end \<equiv> print ''You reached the end of the conversations.'' w"
  shows "(\<forall>k\<le>length cs. next_calls k c0 w = Inr (take k cs, c0\<lparr>iterator_idx := int k\<rparr>, w))
       \<and> next_calls (length cs + 1) c0 w = Inr (cs @ [JNull], c0, w_end)
       \<and> next_calls (length cs + 2) c0 w =
           bind (next_conv c0 w_end) (\<lambda>(v, c', w'). Inr (cs @ [JNull, v], c', w'))
       \<and> (cs \<noteq> [] \<longrightarrow> next_conv c0 w_end = Inr (cs ! 0, c0\<lparr>iterator_idx := 1\<rparr>, w_end))
       \<and> (\<forall>calls. \<exists>vs c' w'. run_calls calls c0 w = Inr (vs, c', w') \<and> conversations c' = cs \<and>
             0 \<le> iterator_idx c' \<and> iterator_idx c' \<le> int (length cs))"
proof (intro conjI allI impI)
  fix k assume "k \<le> length cs"
  then show "next_calls k c0 w = Inr (take k cs, c0\<lparr>iterator_idx := int k\<rparr>, w)"
    using next_calls_from [of 0 k c0 w] by (simp add: c0_def)
next
  have all: "next_calls (length cs) c0 w = Inr (cs, c0\<lparr>iterator_idx := int (length cs)\<rparr>, w)"
    using next_calls_from [of 0 "length cs" c0 w] by (simp add: c0_def)
  have last: "next_conv (c0\<lparr>iterator_idx := int (length cs)\<rparr>) w = Inr (JNull, c0, w_end)"
    using next_conv_at_end [of "c0\<lparr>iterator_idx := int (length cs)\<rparr>" w]
    by (simp add: c0_def w_end_def)
  show one: "next_calls (length cs + 1) c0 w = Inr (cs @ [JNull], c0, w_end)"
    using next_calls_append [OF all, of 1] by (simp add: last bind_def)
  show "next_calls (length cs + 2) c0 w =
           bind (next_conv c0 w_end) (\<lambda>(v, c', w'). Inr (cs @ [JNull, v], c', w'))"
    using next_calls_append [OF one, of 1]
    by (auto simp: bind_def numeral_2_eq_2 split: sum.splits prod.splits)
next
  assume "cs \<noteq> []"
  then show "next_conv c0 w_end = Inr (cs ! 0, c0\<lparr>iterator_idx := 1\<rparr>, w_end)"
    using next_conv_in_range [of 0 c0 w_end] by (simp add: c0_def)
next
  fix calls
  show "\<exists>vs c' w'. run_calls calls c0 w = Inr (vs, c', w') \<and> conversations c' = cs \<and>
             0 \<le> iterator_idx c' \<and> iterator_idx c' \<le> int (length cs)"
    using run_calls_invariant [of c0 calls w] by (auto simp: c0_def)
qed

theorem next_cycle_witness:
  "next_calls 2 \<lparr>conversations = [JInt 1, JInt 2], metadata = None, iterator_idx = 0\<rparr> world0 =
     Inr ([JInt 1, JInt 2],
          \<lparr>conversations = [JInt 1, JInt 2], metadata = None, iterator_idx = 2\<rparr>, world0)
   \<and> next_calls 3 \<lparr>conversations = [JInt 1, JInt 2], metadata = None, iterator_idx = 0\<rparr> world0 =
     Inr ([JInt 1, JInt 2, JNull],
          \<lparr>conversations = [JInt 1, JInt 2], metadata = None, iterator_idx = 0\<rparr>,
          \<lparr>files = Map.empty, console = [''You reached the end of the conversations.'']\<rparr>)
   \<and> next_calls 4 \<lparr>conversations = [JInt 1, JInt 2], metadata = None, iterator_idx = 0\<rparr> world0 =
     Inr ([JInt 1, JInt 2, JNull, JInt 1],
          \<lparr>conversations = [JInt 1, JInt 2], metadata = None, iterator_idx = 1\<rparr>,
          \<lparr>files = Map.empty, console = [''You reached the end of the conversations.'']\<rparr>)
   \<and> (\<exists>vs c' w'.
         run_calls [Next, Reset, Next, Next, Next, Next]
           \<lparr>conversations = [JInt 1, JInt 2], metadata = None, iterator_idx = 0\<rparr> world0 =
           Inr (vs, c', w') \<and>
         conversations c' = [JInt 1, JInt 2] \<and> 0 \<le> iterator_idx c' \<and> iterator_idx c' \<le> 2)"
proof -
  let ?cs = "[JInt 1, JInt 2]"
  let ?c0 = "\<lparr>conversations = ?cs, metadata = None, iterator_idx = 0\<rparr>"
  note inst = next_cycle [where cs = "?cs" and m = None and w = world0]
  have k: "(2::nat) \<le> length ?cs" by simp
  have a: "next_calls 2 ?c0 world0 = Inr (take 2 ?cs, ?c0\<lparr>iterator_idx := int 2\<rparr>, world0)"
    using inst [THEN conjunct1, rule_format, OF k] .
  have b: "next_calls (length ?cs + 1) ?c0 world0 =
      Inr (?cs @ [JNull], ?c0, print ''You reached the end of the conversations.'' world0)"
    using inst [THEN conjunct2, THEN conjunct1] .
  have ne: "?cs \<noteq> []" by simp
  have d: "next_conv ?c0 (print ''You reached the end of the conversations.'' world0) =
      Inr (?cs ! 0, ?c0\<lparr>iterator_idx := 1\<rparr>, print ''You reached the end of the conversations.'' world0)"
    using inst [THEN conjunct2, THEN conjunct2, THEN conjunct2, THEN conjunct1, rule_format, OF ne] .
  have c: "next_calls (length ?cs + 2) ?c0 world0 =
      Inr (?cs @ [JNull, ?cs ! 0], ?c0\<lparr>iterator_idx := 1\<rparr>,
           print ''You reached the end of the conversations.'' world0)"
    using inst [THEN conjunct2, THEN conjunct2, THEN conjunct1] by (simp only: d bind_def sum.case prod.case)
  have e: "\<exists>vs c' w'. run_calls [Next, Reset, Next, Next, Next, Next] ?c0 world0 = Inr (vs, c', w') \<and>
      conversations c' = ?cs \<and> 0 \<le> iterator_idx c' \<and> iterator_idx c' \<le> int (length ?cs)"
    using inst [THEN conjunct2, THEN conjunct2, THEN conjunct2, THEN conjunct2, rule_format] .
  have n1: "length ?cs + 1 = 3" and n2: "length ?cs + 2 = 4" and n0: "int (length ?cs) = 2"
    by simp_all
  have pr: "print ''You reached the end of the conversations.'' world0 =
      \<lparr>files = Map.empty, console = [''You reached the end of the conversations.'']\<rparr>"
    by (simp add: print_def world0_def)
  have a': "next_calls 2 ?c0 world0 =
      Inr (?cs, \<lparr>conversations = ?cs, metadata = None, iterator_idx = 2\<rparr>, world0)"
    using a by simp
  have b': "next_calls 3 ?c0 world0 =
      Inr ([JInt 1, JInt 2, JNull], ?c0,
           \<lparr>files = Map.empty, console = [''You reached the end of the conversations.'']\<rparr>)"
    using b unfolding n1 pr by simp
  have c': "next_calls 4 ?c0 world0 =
      Inr ([JInt 1, JInt 2, JNull, JInt 1],
           \<lparr>conversations = ?cs, metadata = None, iterator_idx = 1\<rparr>,
           \<lparr>files = Map.empty, console = [''You reached the end of the conversations.'']\<rparr>)"
    using c unfolding n2 pr by simp
  show ?thesis
    using a' b' c' e unfolding n0 by (intro conjI)
qed

text \<open>
  C10. Indexed access at an integer index is Python's list indexing: with \<open>n\<close>
  conversations, every index from \<open>-n\<close> to \<open>n - 1\<close> succeeds, a negative index counting
  from the end, so that \<open>-k\<close> with \<open>1 \<le> k \<le> n\<close> gives conversation \<open>n - k\<close>; every other
  index raises \<open>IndexError\<close>.
\<close>

theorem getitem_python_index:
  "getitem c i =
     (if - num_conversations c \<le> i \<and> i < num_conversations c
      then Inr (conversations c ! nat (if i < 0 then i + num_conversations c else i))
      else Inl (IndexError ''list index out of range''))
   \<and> (1 \<le> k \<and> k \<le> length (conversations c) \<longrightarrow>
        getitem c (- int k) = Inr (conversations c ! (length (conversations c) - k)))"
proof (intro conjI impI)
  show "getitem c i =
     (if - num_conversations c \<le> i \<and> i < num_conversations c
      then Inr (conversations c ! nat (if i < 0 then i + num_conversations c else i))
      else Inl (IndexError ''list index out of range''))"
    by (auto simp: getitem_def py_index_def num_conversations_def Let_def)
next
  assume k: "1 \<le> k \<and> k \<le> length (conversations c)"
  then have "nat (- int k + int (length (conversations c))) = length (conversations c) - k"
    by linarith
  with k show "getitem c (- int k) = Inr (conversations c ! (length (conversations c) - k))"
    by (auto simp: getitem_def py_index_def Let_def)
qed

theorem getitem_python_index_witness:
  "(1::nat) \<le> 1 \<and> (1::nat) \<le> length [JInt 10, JInt 20, JInt 30]
   \<and> getitem \<lparr>conversations = [JInt 10, JInt 20, JInt 30], metadata = None, iterator_idx = 0\<rparr> (- 1) =
       Inr (JInt 30)
   \<and> getitem \<lparr>conversations = [JInt 10, JInt 20, JInt 30], metadata = None, iterator_idx = 0\<rparr> (- 3) =
       Inr (JInt 10)
   \<and> getitem \<lparr>conversations = [JInt 10, JInt 20, JInt 30], metadata = None, iterator_idx = 0\<rparr> 3 =
       Inl (IndexError ''list index out of range'')
   \<and> getitem \<lparr>conversations = [JInt 10, JInt 20, JInt 30], metadata = None, iterator_idx = 0\<rparr> (- 4) =
       Inl (IndexError ''list index out of range'')"
proof -
  let ?c = "\<lparr>conversations = [JInt 10, JInt 20, JInt 30], metadata = None, iterator_idx = 0\<rparr>"
  have k: "(1::nat) \<le> 1 \<and> (1::nat) \<le> length (conversations ?c)" by simp
  have a: "getitem ?c (- int 1) = Inr (conversations ?c ! (length (conversations ?c) - 1))"
    using getitem_python_index [where c = "?c" and k = 1, THEN conjunct2, rule_format, OF k] .
  have b: "getitem ?c (- 3) = Inr (JInt 10)"
    using getitem_python_index [where c = "?c" and i = "- 3", THEN conjunct1]
    by (simp add: num_conversations_def)
  have c: "getitem ?c 3 = Inl (IndexError ''list index out of range'')"
    using getitem_python_index [where c = "?c" and i = 3, THEN conjunct1]
    by (simp add: num_conversations_def)
  have d: "getitem ?c (- 4) = Inl (IndexError ''list index out of range'')"
    using getitem_python_index [where c = "?c" and i = "- 4", THEN conjunct1]
    by (simp add: num_conversations_def)
  show ?thesis using a b c d by simp
qed

section \<open>Turn records\<close>



section \<open>The example of the specification\<close>

text \<open>
  C2. Saving the single example episode with \<open>context_ids = "context"\<close>, the default
  \<open>save_keys\<close> and no extra keyword arguments writes one conversation record, whose
  context has the two entries with text \<open>room A\<close> and whose dialog has the one pair of
  \<open>speaker_1\<close> with \<open>hi\<close> and \<open>speaker_2\<close> with \<open>hello\<close>, and writes a metadata record
  whose speakers are \<open>speaker_1\<close>, \<open>speaker_2\<close>. The theorem gives the whole effect of
  the call.
\<close>

theorem save_example:
  fixes dumps :: encoder and datapath now :: string and w :: world
  defines "to_save \<equiv> Conversations_get_path datapath"
  defines "mpath \<equiv> Metadata_get_path to_save"
  shows "save_conversations dumps [spec_example_episode] datapath v_opt ''text,labels,eval_labels''
           ''context'' v_self_chat [] now w =
     (None,
      w\<lparr>files := (files w)
           (to_save \<mapsto>
              dumps (JObj
                [(''dialog'', JList [JList
                    [JObj [(''text'', JStr ''hi''), (''labels'', JStr []), (''eval_labels'', JStr []),
                           (''id'', JStr ''speaker_1'')],
                     JObj [(''text'', JStr ''hello''), (''labels'', JStr []), (''eval_labels'', JStr []),
                           (''id'', JStr ''speaker_2'')]]]),
                 (''context'', JList
                    [JObj [(''text'', JStr ''room A''), (''labels'', JStr []), (''eval_labels'', JStr []),
                           (''id'', JStr ''context'')],
                     JObj [(''text'', JStr ''room A''), (''labels'', JStr []), (''eval_labels'', JStr []),
                           (''id'', JStr ''context'')]]),
                 (''metadata_path'', JStr mpath)]) @ [CHR 0x0A],
            mpath \<mapsto>
              dumps (JObj
                [(''date'', JStr now), (''opt'', v_opt), (''self_chat'', v_self_chat),
                 (''speakers'', JList [JStr ''speaker_1'', JStr ''speaker_2'']),
                 (''version'', JStr ''0.1'')])),
        console := console w @
           ['' [ Conversations saved to file: '' @ to_save @ '' ]'',
            ''[ Writing metadata to file '' @ mpath @ '' ]'']\<rparr>)"
proof -
  have "save_conversations dumps [spec_example_episode] datapath v_opt ''text,labels,eval_labels''
           ''context'' v_self_chat [] now w =
     (None, save_metadata dumps to_save v_opt v_self_chat
        (JList [JStr ''speaker_1'', JStr ''speaker_2'']) [] now
        (print ('' [ Conversations saved to file: '' @ to_save @ '' ]'')
           (write_file to_save
              (write_lines dumps (saved_records [JStr ''context''] ''text,labels,eval_labels'' mpath
                 [spec_example_episode])) w)))"
    by (simp only: save_conversations_eq Let_def example_cids example_speakers to_save_def mpath_def
        list.map list.set empty_iff if_False)
  then show ?thesis
    by (simp add: example_records save_metadata_def metadata_record_def write_file_def print_def
        write_lines_def version_def Let_def mpath_def)
qed

section \<open>Loading\<close>

text \<open>
  C7, as the code has it. When the file exists, the load returns the records \<open>cs\<close>
  exactly when every line, decoded on its own, gives the record at its place in \<open>cs\<close>.
  If a line is malformed and the lines before it are not, the load fails with the
  decoder's error for that line alone and returns no record: the document of the error
  is the text of the line and its position is a position in the line, so that its message
  names line 1 and a column of the line, whatever the number of the line in the file.
\<close>

theorem load_conversations_lines:
  fixes decode :: decoder
  assumes "isfile w datapath"
  defines "file_lines \<equiv> splitlines (read_file w datapath)"
  shows "(load_conversations decode datapath w = Inr cs \<longleftrightarrow> map decode file_lines = map Inr cs)
       \<and> (file_lines = pre @ l # post \<and> (\<forall>x\<in>set pre. \<exists>v. decode x = Inr v) \<and> decode l = Inl (msg, pos) \<longrightarrow>
            load_conversations decode datapath w = Inl (JSONDecodeError msg l pos)
            \<and> error_message (JSONDecodeError msg l pos) =
                msg @ '': line 1 column '' @ dec_digits (pos + 1) @ '' (char '' @ dec_digits pos @ '')'')"
proof (intro conjI impI)
  show "load_conversations decode datapath w = Inr cs \<longleftrightarrow> map decode file_lines = map Inr cs"
  proof
    assume "load_conversations decode datapath w = Inr cs"
    then have "parse_lines decode file_lines [] = Inr cs"
      by (simp add: load_conversations_file [OF assms(1)] file_lines_def)
    from parse_lines_result [OF this] show "map decode file_lines = map Inr cs" by simp
  next
    assume "map decode file_lines = map Inr cs"
    from parse_lines_ok [OF this, of "[]"] show "load_conversations decode datapath w = Inr cs"
      by (simp add: load_conversations_file [OF assms(1)] file_lines_def)
  qed
next
  assume a: "file_lines = pre @ l # post \<and> (\<forall>x\<in>set pre. \<exists>v. decode x = Inr v) \<and> decode l = Inl (msg, pos)"
  then have "parse_lines decode file_lines [] = Inl (JSONDecodeError msg l pos)"
    by (simp add: parse_lines_fail)
  then show "load_conversations decode datapath w = Inl (JSONDecodeError msg l pos)"
    by (simp add: load_conversations_file [OF assms(1)] file_lines_def)
  from a have "l \<in> set (splitlines (read_file w datapath))"
    by (simp add: file_lines_def [symmetric])
  then have "CHR 0x0A \<notin> set l" by (rule splitlines_no_newline)
  then show "error_message (JSONDecodeError msg l pos) =
      msg @ '': line 1 column '' @ dec_digits (pos + 1) @ '' (char '' @ dec_digits pos @ '')''"
    by (rule error_message_one_line)
qed

theorem load_conversations_lines_witness:
  "isfile world_bad_third_line ''c.jsonl''
   \<and> splitlines (read_file world_bad_third_line ''c.jsonl'') = [''{}'', ''{}''] @ ''@'' # []
   \<and> list_all (\<lambda>x. json_decode x = Inr (JObj [])) [''{}'', ''{}'']
   \<and> json_decode ''@'' = Inl (''Expecting value'', 0)
   \<and> load_conversations json_decode ''c.jsonl'' world_bad_third_line =
       Inl (JSONDecodeError ''Expecting value'' ''@'' 0)
   \<and> error_message (JSONDecodeError ''Expecting value'' ''@'' 0) =
       ''Expecting value: line 1 column 1 (char 0)''"
proof -
  have f: "isfile world_bad_third_line ''c.jsonl''" by code_simp
  have ls: "splitlines (read_file world_bad_third_line ''c.jsonl'') = [''{}'', ''{}''] @ ''@'' # []"
    by code_simp
  have ok: "json_decode ''{}'' = Inr (JObj [])" by code_simp
  have pre: "\<forall>x\<in>set [''{}'', ''{}'']. \<exists>v. json_decode x = Inr v"
    using ok by simp
  have bad: "json_decode ''@'' = Inl (''Expecting value'', 0)" by code_simp
  note inst = load_conversations_lines [OF f, where decode = json_decode and pre = "[''{}'', ''{}'']"
      and l = "''@''" and post = "[]" and msg = "''Expecting value''" and pos = 0,
      THEN conjunct2, rule_format, OF conjI [OF ls conjI [OF pre bad]]]
  have d: "dec_digits (0 + 1) = ''1''" "dec_digits 0 = ''0''" by code_simp+
  have m: "error_message (JSONDecodeError ''Expecting value'' ''@'' 0) =
       ''Expecting value: line 1 column 1 (char 0)''"
    using inst [THEN conjunct2] unfolding d by simp
  have "list_all (\<lambda>x. json_decode x = Inr (JObj [])) [''{}'', ''{}'']"
    using ok by simp
  with f ls bad inst [THEN conjunct1] m show ?thesis by (intro conjI)
qed

text \<open>
  A file whose third line is malformed and a file whose first line is the same malformed
  text fail with the same error, and its message names line 1.
\<close>

theorem malformed_third_line_reports_line_1:
  "load_conversations json_decode ''c.jsonl'' world_bad_first_line =
     Inl (JSONDecodeError ''Expecting value'' ''@'' 0)
   \<and> load_conversations json_decode ''c.jsonl'' world_bad_third_line =
     Inl (JSONDecodeError ''Expecting value'' ''@'' 0)
   \<and> error_message (JSONDecodeError ''Expecting value'' ''@'' 0) =
     ''Expecting value: line 1 column 1 (char 0)''"
  by code_simp

text \<open>
  C8. When the conversation file loads and there is no file at the metadata path, the
  \<open>RuntimeError\<close> of \<open>Metadata._load\<close> is caught: the constructor returns an archive with
  the loaded conversations, metadata \<open>None\<close> and the cursor at 0, one warning line is
  printed, no file changes, and indexed access reads the loaded conversations.
\<close>

theorem missing_sidecar_is_recovered:
  fixes decode :: decoder
  assumes "load_conversations decode datapath w = Inr cs"
    and "\<not> isfile w (Metadata_get_path datapath)"
  defines "w' \<equiv> print ''Metadata does not exist. Please double check your datapath.'' w"
  shows "Metadata_load decode datapath w =
           Inl (RuntimeError (''Metadata at path '' @ Metadata_get_path datapath @
                  '' not found. Double check your path.''))
       \<and> load_metadata decode datapath w = Inr (None, w')
       \<and> Conversations_init decode datapath w =
           Inr (\<lparr>conversations = cs, metadata = None, iterator_idx = 0\<rparr>, w')
       \<and> files w' = files w
       \<and> console w' = console w @ [''Metadata does not exist. Please double check your datapath.'']
       \<and> getitem \<lparr>conversations = cs, metadata = None, iterator_idx = 0\<rparr> i = py_index cs i"
proof (intro conjI)
  show ml: "Metadata_load decode datapath w =
           Inl (RuntimeError (''Metadata at path '' @ Metadata_get_path datapath @
                  '' not found. Double check your path.''))"
    using assms(2) by (simp add: Metadata_load_def Let_def)
  show lm: "load_metadata decode datapath w = Inr (None, w')"
    by (simp add: load_metadata_def ml w'_def)
  show "Conversations_init decode datapath w =
           Inr (\<lparr>conversations = cs, metadata = None, iterator_idx = 0\<rparr>, w')"
    by (simp add: Conversations_init_def assms(1) lm bind_def)
  show "files w' = files w" by (simp add: w'_def print_def)
  show "console w' = console w @ [''Metadata does not exist. Please double check your datapath.'']"
    by (simp add: w'_def print_def)
  show "getitem \<lparr>conversations = cs, metadata = None, iterator_idx = 0\<rparr> i = py_index cs i"
    by (simp add: getitem_def)
qed

theorem missing_sidecar_is_recovered_witness:
  "load_conversations json_decode ''c.jsonl'' world_no_sidecar = Inr [JObj [], JList [JInt 1, JInt 2]]
   \<and> \<not> isfile world_no_sidecar (Metadata_get_path ''c.jsonl'')
   \<and> Conversations_init json_decode ''c.jsonl'' world_no_sidecar =
       Inr (\<lparr>conversations = [JObj [], JList [JInt 1, JInt 2]], metadata = None, iterator_idx = 0\<rparr>,
            print ''Metadata does not exist. Please double check your datapath.'' world_no_sidecar)"
proof -
  have a: "load_conversations json_decode ''c.jsonl'' world_no_sidecar = Inr [JObj [], JList [JInt 1, JInt 2]]"
    by code_simp
  have b: "\<not> isfile world_no_sidecar (Metadata_get_path ''c.jsonl'')"
    by code_simp
  from missing_sidecar_is_recovered [OF a b, THEN conjunct2, THEN conjunct2, THEN conjunct1] a b
  show ?thesis by (intro conjI)
qed

section \<open>Saving twice, saving and loading\<close>

text \<open>
  C9. Two calls of \<open>save_conversations\<close> with the same arguments, the second on the world
  the first leaves, at the clock readings \<open>now1\<close> and \<open>now2\<close>: both end the same way; the
  conversation file holds the same text after each; when the calls succeed, the metadata
  file holds the encoded metadata record of each call, and the two records have the same
  keys in the same order and the same values except under \<open>date\<close>; no file but the
  metadata file differs, and none differs when the clock readings are equal or the call
  fails.
\<close>

theorem save_twice:
  fixes dumps :: encoder and act_list :: "dict list list list"
    and datapath save_keys context_ids now1 now2 :: string
    and v_opt v_self_chat :: json and kwargs :: dict and w :: world
  defines "to_save \<equiv> Conversations_get_path datapath"
  defines "mpath \<equiv> Metadata_get_path to_save"
  defines "cids \<equiv> map JStr (split_on CHR '','' context_ids)"
  defines "loop \<equiv> act_list_loop dumps cids save_keys mpath act_list ([], [])"
  defines "md \<equiv> \<lambda>now. metadata_record now v_opt v_self_chat (JList (snd loop)) kwargs"
  defines "r1 \<equiv> save_conversations dumps act_list datapath v_opt save_keys context_ids v_self_chat
                  kwargs now1 w"
  defines "r2 \<equiv> save_conversations dumps act_list datapath v_opt save_keys context_ids v_self_chat
                  kwargs now2 (snd r1)"
  shows "fst r2 = fst r1
       \<and> files (snd r1) to_save = Some (fst loop)
       \<and> files (snd r2) to_save = Some (fst loop)
       \<and> (fst r1 = None \<longrightarrow>
            files (snd r1) mpath = Some (dumps (JObj (md now1))) \<and>
            files (snd r2) mpath = Some (dumps (JObj (md now2))))
       \<and> list_all2 same_but_date (md now1) (md now2)
       \<and> (\<forall>p. p \<noteq> mpath \<longrightarrow> files (snd r2) p = files (snd r1) p)
       \<and> (fst r1 \<noteq> None \<or> now1 = now2 \<longrightarrow> files (snd r2) = files (snd r1))"
proof -
  have loop: "loop = (write_lines dumps (saved_records cids save_keys mpath act_list),
      first_seen (dialog_ids cids (concat (concat act_list))))"
    by (simp add: loop_def act_list_loop_eq add_speakers_first_seen py_in_def)
  have ne: "to_save \<noteq> mpath"
    unfolding to_save_def mpath_def by (rule get_path_differ)
  have f1: "files (snd r1) =
      (if ''speakers'' \<in> set (map fst kwargs) then (files w)(to_save \<mapsto> fst loop)
       else (files w)(to_save \<mapsto> fst loop, mpath \<mapsto> dumps (JObj (md now1))))"
    by (simp add: r1_def save_conversations_files Let_def loop md_def to_save_def mpath_def cids_def)
  have f2: "files (snd r2) =
      (if ''speakers'' \<in> set (map fst kwargs) then (files (snd r1))(to_save \<mapsto> fst loop)
       else (files (snd r1))(to_save \<mapsto> fst loop, mpath \<mapsto> dumps (JObj (md now2))))"
    by (simp add: r2_def save_conversations_files Let_def loop md_def to_save_def mpath_def cids_def)
  have o1: "fst r1 = (if ''speakers'' \<in> set (map fst kwargs)
      then Some (TypeError ''save_metadata() got multiple values for keyword argument 'speakers' '')
      else None)"
    by (simp add: r1_def save_conversations_outcome)
  have o2: "fst r2 = (if ''speakers'' \<in> set (map fst kwargs)
      then Some (TypeError ''save_metadata() got multiple values for keyword argument 'speakers' '')
      else None)"
    by (simp add: r2_def save_conversations_outcome)
  show ?thesis
  proof (intro conjI allI impI)
    show "fst r2 = fst r1" by (simp add: o1 o2)
    show "files (snd r1) to_save = Some (fst loop)" using ne by (simp add: f1)
    show "files (snd r2) to_save = Some (fst loop)" using ne by (simp add: f2)
    show "list_all2 same_but_date (md now1) (md now2)"
      unfolding md_def by (rule metadata_record_same_but_date)
  next
    assume "fst r1 = None"
    then have no: "''speakers'' \<notin> set (map fst kwargs)"
      by (simp add: o1 split: if_splits)
    show "files (snd r1) mpath = Some (dumps (JObj (md now1)))" using no by (simp add: f1)
    show "files (snd r2) mpath = Some (dumps (JObj (md now2)))" using no by (simp add: f2)
  next
    fix p assume "p \<noteq> mpath"
    then show "files (snd r2) p = files (snd r1) p"
      by (simp add: f2 f1)
  next
    assume "fst r1 \<noteq> None \<or> now1 = now2"
    then have "''speakers'' \<in> set (map fst kwargs) \<or> now1 = now2"
      by (auto simp: o1 split: if_splits)
    then show "files (snd r2) = files (snd r1)"
      by (auto simp: f2 f1)
  qed
qed

theorem save_twice_witness:
  "fst (save_conversations json_dumps [spec_example_episode] ''c'' JNull ''text'' ''context''
          (JBool False) [(''run'', JStr ''demo'')] ''2020-01-01 10:00:00'' world0) = None
   \<and> files (snd (save_conversations json_dumps [spec_example_episode] ''c'' JNull ''text'' ''context''
          (JBool False) [(''run'', JStr ''demo'')] ''2020-01-01 10:00:05''
          (snd (save_conversations json_dumps [spec_example_episode] ''c'' JNull ''text'' ''context''
             (JBool False) [(''run'', JStr ''demo'')] ''2020-01-01 10:00:00'' world0)))) ''c.jsonl'' =
     files (snd (save_conversations json_dumps [spec_example_episode] ''c'' JNull ''text'' ''context''
          (JBool False) [(''run'', JStr ''demo'')] ''2020-01-01 10:00:00'' world0)) ''c.jsonl''
   \<and> files (snd (save_conversations json_dumps [spec_example_episode] ''c'' JNull ''text'' ''context''
          (JBool False) [(''run'', JStr ''demo'')] ''2020-01-01 10:00:00'' world0)) ''c.metadata'' =
     Some (json_dumps (JObj [(''date'', JStr ''2020-01-01 10:00:00''), (''opt'', JNull),
        (''self_chat'', JBool False), (''speakers'', JList [JStr ''speaker_1'', JStr ''speaker_2'']),
        (''version'', JStr ''0.1''), (''run'', JStr ''demo'')]))
   \<and> files (snd (save_conversations json_dumps [spec_example_episode] ''c'' JNull ''text'' ''context''
          (JBool False) [(''run'', JStr ''demo'')] ''2020-01-01 10:00:05''
          (snd (save_conversations json_dumps [spec_example_episode] ''c'' JNull ''text'' ''context''
             (JBool False) [(''run'', JStr ''demo'')] ''2020-01-01 10:00:00'' world0)))) ''c.metadata'' =
     Some (json_dumps (JObj [(''date'', JStr ''2020-01-01 10:00:05''), (''opt'', JNull),
        (''self_chat'', JBool False), (''speakers'', JList [JStr ''speaker_1'', JStr ''speaker_2'']),
        (''version'', JStr ''0.1''), (''run'', JStr ''demo'')]))"
proof -
  let ?kw = "[(''run'', JStr ''demo'')] :: dict"
  let ?r1 = "save_conversations json_dumps [spec_example_episode] ''c'' JNull ''text'' ''context''
          (JBool False) ?kw ''2020-01-01 10:00:00'' world0"
  let ?r2 = "save_conversations json_dumps [spec_example_episode] ''c'' JNull ''text'' ''context''
          (JBool False) ?kw ''2020-01-01 10:00:05'' (snd ?r1)"
  note inst = save_twice [where dumps = json_dumps and act_list = "[spec_example_episode]"
      and datapath = "''c''" and v_opt = JNull and save_keys = "''text''"
      and context_ids = "''context''" and v_self_chat = "JBool False" and kwargs = "?kw"
      and ?now1.0 = "''2020-01-01 10:00:00''" and ?now2.0 = "''2020-01-01 10:00:05''" and w = world0]
  have ok: "fst ?r1 = None"
    by (simp add: save_conversations_outcome)
  have spk: "snd (act_list_loop json_dumps (map JStr (split_on CHR '','' ''context'')) ''text''
      ''c.metadata'' [spec_example_episode] ([], [])) = [JStr ''speaker_1'', JStr ''speaker_2'']"
    by code_simp
  have md: "metadata_record now JNull (JBool False) (JList [JStr ''speaker_1'', JStr ''speaker_2'']) ?kw =
      [(''date'', JStr now), (''opt'', JNull), (''self_chat'', JBool False),
       (''speakers'', JList [JStr ''speaker_1'', JStr ''speaker_2'']),
       (''version'', JStr ''0.1''), (''run'', JStr ''demo'')]" for now
    by (simp add: metadata_record_def version_def)
  have same: "files (snd ?r2) ''c.jsonl'' = files (snd ?r1) ''c.jsonl''"
    using inst [THEN conjunct2, THEN conjunct1]
      inst [THEN conjunct2, THEN conjunct2, THEN conjunct1]
    by (simp only: paths_c)
  have meta: "files (snd ?r1) ''c.metadata'' = Some (json_dumps (JObj
        (metadata_record ''2020-01-01 10:00:00'' JNull (JBool False)
           (JList [JStr ''speaker_1'', JStr ''speaker_2'']) ?kw)))
      \<and> files (snd ?r2) ''c.metadata'' = Some (json_dumps (JObj
        (metadata_record ''2020-01-01 10:00:05'' JNull (JBool False)
           (JList [JStr ''speaker_1'', JStr ''speaker_2'']) ?kw)))"
    using inst [THEN conjunct2, THEN conjunct2, THEN conjunct2, THEN conjunct1, rule_format, OF ok]
    by (simp only: paths_c spk)
  from ok same meta [unfolded md] show ?thesis
    by (intro conjI) (simp_all only:)
qed



end
